theory Spec2Isabelle
  imports Main
begin

section \<open>Static tables: USIM service numbers (pySim/ts\_31\_102.py)\<close>

text \<open>
  \<^verbatim>\<open>EF_UST_map\<close> is a Python dict literal from service number to description.
  The dict is the finite map read off the literal's items, in the literal's order.
\<close>

definition EF_UST_items :: "(int \<times> string) list" where
  "EF_UST_items = [
    (1, ''Local Phone Book''),
    (2, ''Fixed Dialling Numbers (FDN)''),
    (3, ''Extension 2''),
    (4, ''Service Dialling Numbers (SDN)''),
    (5, ''Extension3''),
    (6, ''Barred Dialling Numbers (BDN)''),
    (7, ''Extension4''),
    (8, ''Outgoing Call Information (OCI and OCT)''),
    (9, ''Incoming Call Information (ICI and ICT)''),
    (10, ''Short Message Storage (SMS)''),
    (11, ''Short Message Status Reports (SMSR)''),
    (12, ''Short Message Service Parameters (SMSP)''),
    (13, ''Advice of Charge (AoC)''),
    (14, ''Capability Configuration Parameters 2 (CCP2)''),
    (15, ''Cell Broadcast Message Identifier''),
    (16, ''Cell Broadcast Message Identifier Ranges''),
    (17, ''Group Identifier Level 1''),
    (18, ''Group Identifier Level 2''),
    (19, ''Service Provider Name''),
    (20, ''User controlled PLMN selector with Access Technology''),
    (21, ''MSISDN''),
    (22, ''Image (IMG)''),
    (23, ''Support of Localised Service Areas (SoLSA)''),
    (24, ''Enhanced Multi-Level Precedence and Pre-emption Service''),
    (25, ''Automatic Answer for eMLPP''),
    (26, ''RFU''),
    (27, ''GSM Access''),
    (28, ''Data download via SMS-PP''),
    (29, ''Data download via SMS-CB''),
    (30, ''Call Control by USIM''),
    (31, ''MO-SMS Control by USIM''),
    (32, ''RUN AT COMMAND command''),
    (33, ''shall be set to 1''),
    (34, ''Enabled Services Table''),
    (35, ''APN Control List (ACL)''),
    (36, ''Depersonalisation Control Keys''),
    (37, ''Co-operative Network List''),
    (38, ''GSM security context''),
    (39, ''CPBCCH Information''),
    (40, ''Investigation Scan''),
    (41, ''MexE''),
    (42, ''Operator controlled PLMN selector with Access Technology''),
    (43, ''HPLMN selector with Access Technology''),
    (44, ''Extension 5''),
    (45, ''PLMN Network Name''),
    (46, ''Operator PLMN List''),
    (47, ''Mailbox Dialling Numbers''),
    (48, ''Message Waiting Indication Status''),
    (49, ''Call Forwarding Indication Status''),
    (50, ''Reserved and shall be ignored''),
    (51, ''Service Provider Display Information''),
    (52, ''Multimedia Messaging Service (MMS)''),
    (53, ''Extension 8''),
    (54, ''Call control on GPRS by USIM''),
    (55, ''MMS User Connectivity Parameters''),
    (56, ''Network'' @ [CHR 0x27] @ ''s indication of alerting in the MS (NIA)''),
    (57, ''VGCS Group Identifier List (EFVGCS and EFVGCSS)''),
    (58, ''VBS Group Identifier List (EFVBS and EFVBSS)''),
    (59, ''Pseudonym''),
    (60, ''User Controlled PLMN selector for I-WLAN access''),
    (61, ''Operator Controlled PLMN selector for I-WLAN access''),
    (62, ''User controlled WSID list''),
    (63, ''Operator controlled WSID list''),
    (64, ''VGCS security''),
    (65, ''VBS security''),
    (66, ''WLAN Reauthentication Identity''),
    (67, ''Multimedia Messages Storage''),
    (68, ''Generic Bootstrapping Architecture (GBA)''),
    (69, ''MBMS security''),
    (70, ''Data download via USSD and USSD application mode''),
    (71, ''Equivalent HPLMN''),
    (72, ''Additional TERMINAL PROFILE after UICC activation''),
    (73, ''Equivalent HPLMN Presentation Indication''),
    (74, ''Last RPLMN Selection Indication''),
    (75, ''OMA BCAST Smart Card Profile''),
    (76, ''GBA-based Local Key Establishment Mechanism''),
    (77, ''Terminal Applications''),
    (78, ''Service Provider Name Icon''),
    (79, ''PLMN Network Name Icon''),
    (80, ''Connectivity Parameters for USIM IP connections''),
    (81, ''Home I-WLAN Specific Identifier List''),
    (82, ''I-WLAN Equivalent HPLMN Presentation Indication''),
    (83, ''I-WLAN HPLMN Priority Indication''),
    (84, ''I-WLAN Last Registered PLMN''),
    (85, ''EPS Mobility Management Information''),
    (86, ''Allowed CSG Lists and corresponding indications''),
    (87, ''Call control on EPS PDN connection by USIM''),
    (88, ''HPLMN Direct Access''),
    (89, ''eCall Data''),
    (90, ''Operator CSG Lists and corresponding indications''),
    (91, ''Support for SM-over-IP''),
    (92, ''Support of CSG Display Control''),
    (93, ''Communication Control for IMS by USIM''),
    (94, ''Extended Terminal Applications''),
    (95, ''Support of UICC access to IMS''),
    (96, ''Non-Access Stratum configuration by USIM''),
    (97, ''PWS configuration by USIM''),
    (98, ''RFU''),
    (99, ''URI support by UICC''),
    (100, ''Extended EARFCN support''),
    (101, ''ProSe''),
    (102, ''USAT Application Pairing''),
    (103, ''Media Type support''),
    (104, ''IMS call disconnection cause''),
    (105, ''URI support for MO SHORT MESSAGE CONTROL''),
    (106, ''ePDG configuration Information support''),
    (107, ''ePDG configuration Information configured''),
    (108, ''ACDC support''),
    (109, ''MCPTT''),
    (110, ''ePDG configuration Information for Emergency Service support''),
    (111, ''ePDG configuration Information for Emergency Service configured'')
  ]"

definition EF_UST_map :: "int \<rightharpoonup> string" where
  "EF_UST_map = map_of EF_UST_items"

section \<open>Python values and exceptions used by the shell (pySim-shell.py)\<close>

text \<open>
  The error kinds a card operation can raise are those of the design's error handling
  section; \<open>KeyError\<close> and \<open>IndexError\<close> are the Python exceptions the shell's own
  dictionary and list accesses raise.
\<close>

datatype card_error =
    TransportFailure
  | StatusWordError string
  | MalformedFCP
  | PathNotFound string
  | StructureMismatch
  | OutOfRange
  | NoFileSelected

datatype error =
    KeyError string
  | IndexError
  | CardError card_error

type_synonym 'a result = "error + 'a"

text \<open>\<^verbatim>\<open>str(e)\<close>: the message of an exception.\<close>

fun str_card_error :: "card_error \<Rightarrow> string" where
  "str_card_error TransportFailure = ''TransportFailure''"
| "str_card_error (StatusWordError sw) = ''StatusWordError '' @ sw"
| "str_card_error MalformedFCP = ''MalformedFCP''"
| "str_card_error (PathNotFound p) = ''PathNotFound '' @ p"
| "str_card_error StructureMismatch = ''StructureMismatch''"
| "str_card_error OutOfRange = ''OutOfRange''"
| "str_card_error NoFileSelected = ''NoFileSelected''"

fun str_error :: "error \<Rightarrow> string" where
  "str_error (KeyError k) = [CHR 0x27] @ k @ [CHR 0x27]"
| "str_error IndexError = ''list index out of range''"
| "str_error (CardError e) = str_card_error e"

text \<open>\<^verbatim>\<open>'%d' % r\<close>: the decimal digits of an integer.\<close>

fun str_nat :: "nat \<Rightarrow> string" where
  "str_nat n = (if n < 10 then [''0123456789'' ! n]
                else str_nat (n div 10) @ [''0123456789'' ! (n mod 10)])"

declare str_nat.simps [simp del]

definition str_int :: "int \<Rightarrow> string" where
  "str_int i = (if i < 0 then ''-'' @ str_nat (nat (- i)) else str_nat (nat i))"

text \<open>\<^verbatim>\<open>sep.join(xs)\<close>.\<close>

fun join :: "string \<Rightarrow> string list \<Rightarrow> string" where
  "join sep [] = []"
| "join sep [x] = x"
| "join sep (x # y # ys) = x @ sep @ join sep (y # ys)"

text \<open>
  The decoded select response \<^verbatim>\<open>fcp_dec\<close> is a dict; the shell reads
  \<^verbatim>\<open>fcp_dec['file_descriptor']['structure']\<close> and
  \<^verbatim>\<open>fcp_dec['file_descriptor']['num_of_rec']\<close>. A key that is absent is \<open>None\<close>
  here and a \<open>KeyError\<close> at the access.
\<close>

record file_descriptor =
  fd_structure :: "string option"
  fd_num_of_rec :: "int option"

record fcp =
  file_descriptor :: "file_descriptor option"

section \<open>The runtime state as the shell uses it\<close>

text \<open>
  \<^verbatim>\<open>pySim.filesystem.RuntimeState\<close> is not part of the sources at hand. The shell
  uses five of its operations, which are taken as a parameter: a record of functions
  over the runtime state \<open>'rs\<close>.
  \<^item> \<^verbatim>\<open>rs.select(name, cmd)\<close> returns the decoded select response or raises, and
    changes the selected file; the state after the call is returned in both cases.
  \<^item> \<^verbatim>\<open>rs.read_binary()\<close> and \<^verbatim>\<open>rs.read_record(r)\<close> return a pair
    \<^verbatim>\<open>(data, sw)\<close> or raise; they read the selected file and leave the runtime
    state as it is.
  \<^item> \<^verbatim>\<open>rs.selected_file.fully_qualified_path(prefer_name)\<close> and
    \<^verbatim>\<open>rs.selected_file.get_selectable_names(flags)\<close> are queries.
\<close>

record 'rs runtime =
  rs_select :: "string \<Rightarrow> 'rs \<Rightarrow> fcp result \<times> 'rs"
  rs_read_binary :: "'rs \<Rightarrow> (string \<times> string) result"
  rs_read_record :: "int \<Rightarrow> 'rs \<Rightarrow> (string \<times> string) result"
  rs_fully_qualified_path :: "bool \<Rightarrow> 'rs \<Rightarrow> string list"
  rs_get_selectable_names :: "string list \<Rightarrow> 'rs \<Rightarrow> string list"

text \<open>
  The application object \<^verbatim>\<open>self._cmd\<close> (class \<^verbatim>\<open>PysimApp\<close>): the runtime state,
  the lines written with \<^verbatim>\<open>poutput\<close> (one entry per call), the prompt and the
  \<^verbatim>\<open>numeric_path\<close> setting.
\<close>

record 'rs cmd =
  rs :: 'rs
  out_lines :: "string list"
  prompt :: string
  numeric_path :: bool

definition poutput :: "string \<Rightarrow> 'rs cmd \<Rightarrow> 'rs cmd" where
  "poutput line sh = sh\<lparr>out_lines := out_lines sh @ [line]\<rparr>"

subsection \<open>PysimApp.update\_prompt and the numeric\_path setting\<close>

definition update_prompt :: "'rs runtime \<Rightarrow> 'rs cmd \<Rightarrow> 'rs cmd" where
  "update_prompt ops sh =
     (let path_list = rs_fully_qualified_path ops (\<not> numeric_path sh) (rs sh)
      in sh\<lparr>prompt := ''pySIM-shell ('' @ join ''/'' path_list @ '')> ''\<rparr>)"

definition onchange_numeric_path :: "'rs runtime \<Rightarrow> bool \<Rightarrow> bool \<Rightarrow> 'rs cmd \<Rightarrow> 'rs cmd" where
  "onchange_numeric_path ops old new sh = update_prompt ops sh"

text \<open>
  Setting a cmd2 settable stores the new value and then, when the value changed, calls
  the registered \<^verbatim>\<open>onchange_cb\<close>.
\<close>

definition set_numeric_path :: "'rs runtime \<Rightarrow> bool \<Rightarrow> 'rs cmd \<Rightarrow> 'rs cmd" where
  "set_numeric_path ops new sh =
     (let old = numeric_path sh; sh1 = sh\<lparr>numeric_path := new\<rparr>
      in if old = new then sh1 else onchange_numeric_path ops old new sh1)"

subsection \<open>Iso7816Commands.do\_select\<close>

text \<open>
  \<^verbatim>\<open>opts.arg_list[0]\<close> raises \<open>IndexError\<close> on an empty argument list.
  \<^verbatim>\<open>json.dumps\<close> is a parameter.
\<close>

definition do_select ::
  "'rs runtime \<Rightarrow> (fcp \<Rightarrow> string) \<Rightarrow> string list \<Rightarrow> 'rs cmd \<Rightarrow> unit result \<times> 'rs cmd" where
  "do_select ops json_dumps arg_list sh =
     (case arg_list of
        [] \<Rightarrow> (Inl IndexError, sh)
      | path # _ \<Rightarrow>
          (case rs_select ops path (rs sh) of
             (Inl e, r1) \<Rightarrow> (Inl e, sh\<lparr>rs := r1\<rparr>)
           | (Inr fcp_dec, r1) \<Rightarrow>
               (Inr (), poutput (json_dumps fcp_dec) (update_prompt ops (sh\<lparr>rs := r1\<rparr>)))))"

subsection \<open>Iso7816Commands.walk\<close>

type_synonym 'rs action = "string \<Rightarrow> 'rs cmd \<Rightarrow> unit result \<times> 'rs cmd"

text \<open>
  \<open>is_dir_name\<close> is the test \<^verbatim>\<open>f[0:2] == "DF" or f[0:3] == 'ADF'\<close>.
  \<open>walk_loop\<close> is the \<^verbatim>\<open>for f in files\<close> loop; \<open>recurse\<close> is the recursive call
  \<^verbatim>\<open>self.walk(indent + 1, action)\<close>. An exception leaves the loop and the function.
  \<open>None\<close> is a recursion that did not return.
\<close>

definition is_dir_name :: "string \<Rightarrow> bool" where
  "is_dir_name f = (take 2 f = ''DF'' \<or> take 3 f = ''ADF'')"

primrec walk_loop ::
  "('rs cmd \<Rightarrow> (unit result \<times> 'rs cmd) option) \<Rightarrow> 'rs runtime \<Rightarrow> nat \<Rightarrow>
   'rs action option \<Rightarrow> string list \<Rightarrow> 'rs cmd \<Rightarrow> (unit result \<times> 'rs cmd) option" where
  "walk_loop recurse ops indent action [] sh = Some (Inr (), sh)"
| "walk_loop recurse ops indent action (f # files) sh =
     (let sh1 = (case action of
                   None \<Rightarrow> poutput (concat (replicate indent ''  '') @ f) sh
                 | Some a \<Rightarrow> sh)
      in if is_dir_name f then
           (case rs_select ops f (rs sh1) of
              (Inl e, r1) \<Rightarrow> Some (Inl e, sh1\<lparr>rs := r1\<rparr>)
            | (Inr fcp_dec, r1) \<Rightarrow>
                (case recurse (sh1\<lparr>rs := r1\<rparr>) of
                   None \<Rightarrow> None
                 | Some (Inl e, sh2) \<Rightarrow> Some (Inl e, sh2)
                 | Some (Inr u, sh2) \<Rightarrow>
                     (case rs_select ops ''..'' (rs sh2) of
                        (Inl e, r3) \<Rightarrow> Some (Inl e, sh2\<lparr>rs := r3\<rparr>)
                      | (Inr fcp_dec, r3) \<Rightarrow>
                          walk_loop recurse ops indent action files (sh2\<lparr>rs := r3\<rparr>))))
         else
           (case action of
              None \<Rightarrow> walk_loop recurse ops indent action files sh1
            | Some a \<Rightarrow>
                (case a f sh1 of
                   (Inl e, sh2) \<Rightarrow> Some (Inl e, sh2)
                 | (Inr u, sh2) \<Rightarrow> walk_loop recurse ops indent action files sh2)))"

text \<open>
  \<^verbatim>\<open>walk\<close> recurses on the state of the card, so the depth of the recursion is
  bounded by fuel: \<open>None\<close> when the fuel runs out.
\<close>

primrec walk ::
  "nat \<Rightarrow> 'rs runtime \<Rightarrow> nat \<Rightarrow> 'rs action option \<Rightarrow> 'rs cmd \<Rightarrow>
   (unit result \<times> 'rs cmd) option" where
  "walk 0 ops indent action sh = None"
| "walk (Suc fuel) ops indent action sh =
     (let files = rs_get_selectable_names ops [''NAMES'', ''APPS''] (rs sh)
      in walk_loop (walk fuel ops (indent + 1) action) ops indent action files sh)"

definition do_tree :: "nat \<Rightarrow> 'rs runtime \<Rightarrow> 'rs cmd \<Rightarrow> (unit result \<times> 'rs cmd) option" where
  "do_tree fuel ops sh = walk fuel ops 0 None sh"

subsection \<open>Iso7816Commands.export\<close>

text \<open>The loop \<^verbatim>\<open>for r in range(1, num_of_rec + 1)\<close>.\<close>

primrec read_records :: "'rs runtime \<Rightarrow> int list \<Rightarrow> 'rs cmd \<Rightarrow> unit result \<times> 'rs cmd" where
  "read_records ops [] sh = (Inr (), sh)"
| "read_records ops (r # more_r) sh =
     (case rs_read_record ops r (rs sh) of
        Inl e \<Rightarrow> (Inl e, sh)
      | Inr result \<Rightarrow>
          read_records ops more_r
            (poutput (''update_record '' @ str_int r @ '' '' @ fst result) sh))"

text \<open>
  The suite of the \<^verbatim>\<open>try\<close> statement, in two parts: the two \<^verbatim>\<open>if\<close>
  statements that read the file (from \<^verbatim>\<open>if structure == 'transparent'\<close> to the
  end of the record loop), and the suite as a whole.
\<close>

definition export_reads ::
  "'rs runtime \<Rightarrow> file_descriptor \<Rightarrow> string \<Rightarrow> 'rs cmd \<Rightarrow> unit result \<times> 'rs cmd" where
  "export_reads ops fd struct sh =
     (case (if struct = ''transparent'' then
              (case rs_read_binary ops (rs sh) of
                 Inl e \<Rightarrow> (Inl e, sh)
               | Inr result \<Rightarrow> (Inr (), poutput (''update_binary '' @ fst result) sh))
            else (Inr (), sh)) of
        (Inl e, sh1) \<Rightarrow> (Inl e, sh1)
      | (Inr u, sh1) \<Rightarrow>
          (if struct = ''cyclic'' \<or> struct = ''linear_fixed'' then
             (case fd_num_of_rec fd of
                None \<Rightarrow> (Inl (KeyError ''num_of_rec''), sh1)
              | Some n \<Rightarrow> read_records ops [1..n] sh1)
           else (Inr (), sh1)))"

definition export_try :: "'rs runtime \<Rightarrow> string \<Rightarrow> 'rs cmd \<Rightarrow> unit result \<times> 'rs cmd" where
  "export_try ops filename sh =
     (case rs_select ops filename (rs sh) of
        (Inl e, r1) \<Rightarrow> (Inl e, sh\<lparr>rs := r1\<rparr>)
      | (Inr fcp_dec, r1) \<Rightarrow>
          (let sh1 = sh\<lparr>rs := r1\<rparr>;
               path_list = rs_fully_qualified_path ops True r1;
               path_list_fid = rs_fully_qualified_path ops False r1
           in if path_list = [] \<or> path_list_fid = [] then (Inl IndexError, sh1)
              else
                (let sh2 = poutput (''# file:'' @ last path_list @ '' ('' @
                                    last path_list_fid @ '')'') sh1
                 in case file_descriptor fcp_dec of
                      None \<Rightarrow> (Inl (KeyError ''file_descriptor''), sh2)
                    | Some fd \<Rightarrow>
                        (case fd_structure fd of
                           None \<Rightarrow> (Inl (KeyError ''structure''), sh2)
                         | Some struct \<Rightarrow>
                             (let sh3 = poutput (''# structure: '' @ struct) sh2;
                                  sh4 = foldl (\<lambda>s f. poutput (''select '' @ f) s) sh3 path_list
                              in case export_reads ops fd struct sh4 of
                                   (Inl e, sh5) \<Rightarrow> (Inl e, sh5)
                                 | (Inr u, sh5) \<Rightarrow>
                                     (case rs_select ops ''..'' (rs sh5) of
                                        (Inl e, r6) \<Rightarrow> (Inl e, sh5\<lparr>rs := r6\<rparr>)
                                      | (Inr fcp_dec, r6) \<Rightarrow> (Inr (), sh5\<lparr>rs := r6\<rparr>)))))))"

text \<open>
  \<^verbatim>\<open>export\<close>: the directory comment, the \<^verbatim>\<open>try\<close> with its
  \<^verbatim>\<open>except Exception\<close> handler, and the closing comment. No exception leaves it.
\<close>

definition export :: "'rs runtime \<Rightarrow> string \<Rightarrow> 'rs cmd \<Rightarrow> unit result \<times> 'rs cmd" where
  "export ops filename sh =
     (let path_list = rs_fully_qualified_path ops True (rs sh);
          path_list_fid = rs_fully_qualified_path ops False (rs sh);
          sh1 = poutput (''# directory:'' @ join ''/'' path_list @ '' ('' @
                         join ''/'' path_list_fid @ '')'') sh
      in case export_try ops filename sh1 of
           (Inr u, sh2) \<Rightarrow> (Inr (), poutput ''#'' sh2)
         | (Inl e, sh2) \<Rightarrow>
             (Inr (), poutput ''#''
                        (poutput (''# bad file:'' @ filename @ '', '' @ str_error e) sh2)))"

subsection \<open>Iso7816Commands.do\_export\<close>

text \<open>
  \<^verbatim>\<open>if opts.filename:\<close> is Python truthiness: the option is given and is not the
  empty string.
\<close>

definition do_export ::
  "nat \<Rightarrow> 'rs runtime \<Rightarrow> string option \<Rightarrow> 'rs cmd \<Rightarrow> (unit result \<times> 'rs cmd) option" where
  "do_export fuel ops filename sh =
     (case filename of
        None \<Rightarrow> walk fuel ops 0 (Some (export ops)) sh
      | Some fn \<Rightarrow>
          (if fn = [] then walk fuel ops 0 (Some (export ops)) sh
           else Some (export ops fn sh)))"

section \<open>The card file system and the runtime state\<close>

text \<open>
  Modelled from the spec: \<^verbatim>\<open>pySim.filesystem\<close> (the classes behind
  \<^verbatim>\<open>RuntimeState\<close>, \<^verbatim>\<open>selected_file\<close>, \<^verbatim>\<open>select\<close>, \<^verbatim>\<open>read_binary\<close>,
  \<^verbatim>\<open>read_record\<close>, \<^verbatim>\<open>fully_qualified_path\<close> and \<^verbatim>\<open>get_selectable_names\<close>) is
  missing from the sources. The definitions of this section follow the design's data
  model, path resolver, structured file accessor and child listing.

  A file node is one of MF, DF, ADF and EF. It has a file identifier, an optional name,
  and, for an EF, a structure and a body: one blob for a transparent file, one blob per
  record otherwise. The card's answer to SELECT and to READ on the file is part of the
  node: \<open>None\<close> is success, \<open>Some e\<close> the error that the operation raises. A
  directory holds its children in listing order. The tree holds every file of the card,
  so a path element that matches no child is a file the card does not find.
\<close>

datatype file_type = MF | DF | ADF | EF

datatype ef_structure = Transparent | LinearFixed | Cyclic | BerTlv

fun structure_tag :: "ef_structure \<Rightarrow> string" where
  "structure_tag Transparent = ''transparent''"
| "structure_tag LinearFixed = ''linear_fixed''"
| "structure_tag Cyclic = ''cyclic''"
| "structure_tag BerTlv = ''ber_tlv''"

record file_attr =
  file_type :: file_type
  fid :: string
  name :: "string option"
  select_sw :: "card_error option"
  ef_structure :: "ef_structure option"
  read_sw :: "card_error option"
  body :: "string list"

datatype card_file = CardFile (attr: file_attr) (children: "card_file list")

text \<open>
  Modelled from the spec: the state of \<^verbatim>\<open>RuntimeState\<close>, which is the cursor and
  the selection stack below it (the nearest ancestor first, the MF last).
\<close>

record runtime_state =
  selected_file :: card_file
  parents :: "card_file list"

text \<open>
  Modelled from the spec: \<^verbatim>\<open>fully_qualified_path(prefer_name)\<close> of the selected
  file, the labels of the files from the MF down to it. The label of a file is its name
  when a name is asked for and it has one, else its file id.
\<close>

definition label :: "bool \<Rightarrow> card_file \<Rightarrow> string" where
  "label prefer_name f =
     (case name (attr f) of
        None \<Rightarrow> fid (attr f)
      | Some n \<Rightarrow> if prefer_name then n else fid (attr f))"

definition fully_qualified_path :: "bool \<Rightarrow> runtime_state \<Rightarrow> string list" where
  "fully_qualified_path prefer_name st =
     map (label prefer_name) (rev (parents st) @ [selected_file st])"

text \<open>
  Modelled from the spec: the decoded select response that \<^verbatim>\<open>select\<close> returns for
  a file, with its structure tag and, for a record-structured file, its record count.
\<close>

definition decode_fcp :: "card_file \<Rightarrow> fcp" where
  "decode_fcp f =
     \<lparr>file_descriptor = Some
        \<lparr>fd_structure = map_option structure_tag (ef_structure (attr f)),
         fd_num_of_rec =
           (if ef_structure (attr f) = Some LinearFixed \<or> ef_structure (attr f) = Some Cyclic
            then Some (int (length (body (attr f)))) else None)\<rparr>\<rparr>"

text \<open>
  Modelled from the spec: \<^verbatim>\<open>RuntimeState.select\<close> for one path element, resolved
  against the cursor. A file-id match wins over a name match. The parent reference pops the stack and selects the parent again; the
  current-node token does nothing. A failure leaves the state as it is.
\<close>

definition find_child :: "string \<Rightarrow> card_file \<Rightarrow> card_file option" where
  "find_child tok d =
     (case find (\<lambda>c. fid (attr c) = tok) (children d) of
        Some c \<Rightarrow> Some c
      | None \<Rightarrow> find (\<lambda>c. name (attr c) = Some tok) (children d))"

definition select_element :: "string \<Rightarrow> runtime_state \<Rightarrow> card_error + runtime_state" where
  "select_element tok st =
     (if tok = ''.'' then Inr st
      else if tok = ''..'' then
        (case parents st of
           [] \<Rightarrow> Inl (PathNotFound tok)
         | p # ps \<Rightarrow>
             (case select_sw (attr p) of
                Some e \<Rightarrow> Inl e
              | None \<Rightarrow> Inr \<lparr>selected_file = p, parents = ps\<rparr>))
      else
        (case find_child tok (selected_file st) of
           None \<Rightarrow> Inl (PathNotFound tok)
         | Some c \<Rightarrow>
             (case select_sw (attr c) of
                Some e \<Rightarrow> Inl e
              | None \<Rightarrow> Inr \<lparr>selected_file = c, parents = selected_file st # parents st\<rparr>)))"

text \<open>
  Modelled from the spec: \<^verbatim>\<open>RuntimeState.select\<close> for a path expression. The
  expression is split at \<open>/\<close> into its elements; a leading \<open>/\<close> makes it absolute, and resolution then starts at the MF. The elements are resolved from left to
  right, and the cursor moves only when all of them resolve.
\<close>

fun split_path :: "string \<Rightarrow> string \<Rightarrow> string list" where
  "split_path acc [] = (if acc = [] then [] else [acc])"
| "split_path acc (c # cs) =
     (if c = CHR ''/'' then (if acc = [] then [] else [acc]) @ split_path [] cs
      else split_path (acc @ [c]) cs)"

definition path_elements :: "string \<Rightarrow> string list" where
  "path_elements path = split_path [] path"

definition is_absolute :: "string \<Rightarrow> bool" where
  "is_absolute path = (take 1 path = ''/'')"

definition mf_state :: "runtime_state \<Rightarrow> runtime_state" where
  "mf_state st = \<lparr>selected_file = last (selected_file st # parents st), parents = []\<rparr>"

fun select_elements :: "string list \<Rightarrow> runtime_state \<Rightarrow> card_error + runtime_state" where
  "select_elements [] st = Inr st"
| "select_elements (tok # toks) st =
     (case select_element tok st of
        Inl e \<Rightarrow> Inl e
      | Inr st1 \<Rightarrow> select_elements toks st1)"

definition select :: "string \<Rightarrow> runtime_state \<Rightarrow> fcp result \<times> runtime_state" where
  "select path st =
     (case select_elements (path_elements path) (if is_absolute path then mf_state st else st) of
        Inl e \<Rightarrow> (Inl (CardError e), st)
      | Inr st1 \<Rightarrow> (Inr (decode_fcp (selected_file st1)), st1))"

text \<open>
  Modelled from the spec: \<^verbatim>\<open>RuntimeState.read_binary\<close> and
  \<^verbatim>\<open>RuntimeState.read_record\<close>, against the selected file. \<^verbatim>\<open>read_binary()\<close> reads
  the whole body of a transparent file; \<^verbatim>\<open>read_record(r)\<close> reads record \<open>r\<close>,
  counted from 1, of a linear-fixed or cyclic file. The second component of the result
  is the status word of success.
\<close>

definition read_binary :: "runtime_state \<Rightarrow> (string \<times> string) result" where
  "read_binary st =
     (let a = attr (selected_file st)
      in if file_type a \<noteq> EF then Inl (CardError NoFileSelected)
         else if ef_structure a \<noteq> Some Transparent then Inl (CardError StructureMismatch)
         else (case read_sw a of
                 Some e \<Rightarrow> Inl (CardError e)
               | None \<Rightarrow> Inr (concat (body a), ''9000'')))"

definition read_record :: "int \<Rightarrow> runtime_state \<Rightarrow> (string \<times> string) result" where
  "read_record r st =
     (let a = attr (selected_file st)
      in if file_type a \<noteq> EF then Inl (CardError NoFileSelected)
         else if ef_structure a \<noteq> Some LinearFixed \<and> ef_structure a \<noteq> Some Cyclic
           then Inl (CardError StructureMismatch)
         else if r < 1 \<or> int (length (body a)) < r then Inl (CardError OutOfRange)
         else (case read_sw a of
                 Some e \<Rightarrow> Inl (CardError e)
               | None \<Rightarrow> Inr (body a ! nat (r - 1), ''9000'')))"

text \<open>
  Modelled from the spec: \<^verbatim>\<open>get_selectable_names(flags)\<close> of the selected file,
  the listing of the selectable children, filtered by visibility class: the pseudo
  entries, then for every child in order its file id and its name as the flags ask; an
  application node is listed with its label when applications are asked for.
\<close>

definition child_names :: "string list \<Rightarrow> card_file \<Rightarrow> string list" where
  "child_names flags c =
     (if file_type (attr c) = ADF then
        (if ''APPS'' \<in> set flags then [label True c] else [])
      else
        (if ''FIDS'' \<in> set flags then [fid (attr c)] else []) @
        (if ''NAMES'' \<in> set flags then (case name (attr c) of None \<Rightarrow> [] | Some n \<Rightarrow> [n])
         else []))"

definition get_selectable_names :: "string list \<Rightarrow> runtime_state \<Rightarrow> string list" where
  "get_selectable_names flags st =
     (if ''SELF'' \<in> set flags then [''.''] else []) @
     (if ''PARENT'' \<in> set flags then [''..''] else []) @
     concat (map (child_names flags) (children (selected_file st)))"

text \<open>The five operations of the modelled runtime state, as the shell takes them.\<close>

definition card_runtime :: "runtime_state runtime" where
  "card_runtime =
     \<lparr>rs_select = select,
      rs_read_binary = read_binary,
      rs_read_record = read_record,
      rs_fully_qualified_path = fully_qualified_path,
      rs_get_selectable_names = get_selectable_names\<rparr>"

section \<open>The export script format\<close>

text \<open>
  A line of the script is a comment, with a leading \<open>#\<close>, or a command: one of the
  tokens \<open>select\<close>, \<open>update_binary\<close> and \<open>update_record\<close>, then a space and the
  arguments.
\<close>

definition first_token :: "string \<Rightarrow> string" where
  "first_token l = takeWhile (\<lambda>c. c \<noteq> CHR '' '') l"

definition is_comment :: "string \<Rightarrow> bool" where
  "is_comment l = (take 1 l = ''#'')"

definition is_command :: "string \<Rightarrow> bool" where
  "is_command l =
     (first_token l \<in> set [''select'', ''update_binary'', ''update_record''] \<and>
      take 1 (drop (length (first_token l)) l) = '' '')"

definition script_line :: "string \<Rightarrow> bool" where
  "script_line l = (is_comment l \<or> is_command l)"

text \<open>\<open>sh'\<close> has the lines of \<open>sh\<close> and then lines of the script format only.\<close>

definition extends_script :: "'rs cmd \<Rightarrow> 'rs cmd \<Rightarrow> bool" where
  "extends_script sh sh' =
     (\<exists>new. out_lines sh' = out_lines sh @ new \<and> list_all script_line new)"

section \<open>Example cards\<close>

definition mk_ef :: "string \<Rightarrow> string \<Rightarrow> ef_structure \<Rightarrow> string list \<Rightarrow> card_file" where
  "mk_ef i n s b =
     CardFile \<lparr>file_type = EF, fid = i, name = Some n, select_sw = None,
               ef_structure = Some s, read_sw = None, body = b\<rparr> []"

definition mk_df :: "file_type \<Rightarrow> string \<Rightarrow> string \<Rightarrow> card_file list \<Rightarrow> card_file" where
  "mk_df t i n cs =
     CardFile \<lparr>file_type = t, fid = i, name = Some n, select_sw = None,
               ef_structure = None, read_sw = None, body = []\<rparr> cs"

definition unreadable :: "card_error \<Rightarrow> card_file \<Rightarrow> card_file" where
  "unreadable e f = CardFile ((attr f)\<lparr>read_sw := Some e\<rparr>) (children f)"


text \<open>A session starts with the MF selected, nothing written and names in the prompt.\<close>

definition start :: "card_file \<Rightarrow> runtime_state cmd" where
  "start mf =
     \<lparr>rs = \<lparr>selected_file = mf, parents = []\<rparr>, out_lines = [], prompt = [],
      numeric_path = False\<rparr>"

text \<open>A card on which every file selects and reads.\<close>

definition sim_card :: card_file where
  "sim_card = mk_df MF ''3f00'' ''MF''
     [mk_df DF ''7f10'' ''DF.TELECOM''
        [mk_ef ''6f3a'' ''EF.ADN'' LinearFixed [''aa'', ''bb'']],
      mk_df DF ''7f20'' ''DF.GSM'' [mk_ef ''6f07'' ''EF.IMSI'' Transparent [''0849'']],
      mk_ef ''2fe2'' ''EF.ICCID'' Transparent [''9888'']]"

text \<open>The same card with an \<open>EF.MSISDN\<close> that selects but does not read.\<close>

definition locked_card :: card_file where
  "locked_card = mk_df MF ''3f00'' ''MF''
     [mk_df DF ''7f10'' ''DF.TELECOM''
        [mk_ef ''6f3a'' ''EF.ADN'' LinearFixed [''aa'', ''bb''],
         unreadable (StatusWordError ''6982'') (mk_ef ''6f40'' ''EF.MSISDN'' LinearFixed [''cc''])],
      mk_df DF ''7f20'' ''DF.GSM'' [mk_ef ''6f07'' ''EF.IMSI'' Transparent [''0849'']],
      mk_ef ''2fe2'' ''EF.ICCID'' Transparent [''9888'']]"


text \<open>The session after the command \<^verbatim>\<open>select DF.TELECOM\<close> at the MF.\<close>

definition in_telecom :: "card_file \<Rightarrow> runtime_state cmd" where
  "in_telecom mf =
     snd (do_select card_runtime (\<lambda>fcp_dec. ''{}'') [''DF.TELECOM''] (start mf))"

section \<open>Observing the calls of a walk\<close>

text \<open>
  The calls that a command makes on the runtime state are observed with a runtime state
  that carries a trace: every \<^verbatim>\<open>select\<close> appends the name it is called with. The
  action \<open>visit\<close> appends the name it is applied to; it is an action for
  \<^verbatim>\<open>walk\<close> that does nothing else.
\<close>

datatype event = Select string | Visit string

definition traced :: "'rs runtime \<Rightarrow> ('rs \<times> event list) runtime" where
  "traced ops =
     \<lparr>rs_select = (\<lambda>f st. case rs_select ops f (fst st) of
                              (r, s) \<Rightarrow> (r, (s, snd st @ [Select f]))),
      rs_read_binary = (\<lambda>st. rs_read_binary ops (fst st)),
      rs_read_record = (\<lambda>r st. rs_read_record ops r (fst st)),
      rs_fully_qualified_path = (\<lambda>prefer_name st. rs_fully_qualified_path ops prefer_name (fst st)),
      rs_get_selectable_names = (\<lambda>flags st. rs_get_selectable_names ops flags (fst st))\<rparr>"

definition visit :: "('rs \<times> event list) action" where
  "visit f sh = (Inr (), sh\<lparr>rs := (fst (rs sh), snd (rs sh) @ [Visit f])\<rparr>)"

section \<open>The traversal of the design\<close>

text \<open>
  The depth-first traversal of the tree below a directory, as the design describes it:
  the children are taken in listing order; a directory child is selected, its subtree is
  traversed, and the parent is selected again, before the next sibling; at any other
  child the traversal does what it does at a leaf. \<open>walk_events\<close> is the sequence of
  calls, \<open>walk_lines\<close> the lines written, where \<open>pre\<close> gives the lines written for a
  child before anything is done with it, at a given depth.
\<close>

fun walk_events :: "(string \<Rightarrow> event list) \<Rightarrow> card_file \<Rightarrow> event list" where
  "walk_events leaf (CardFile a cs) =
     concat (map (\<lambda>c. concat (map
        (\<lambda>f. if is_dir_name f then Select f # walk_events leaf c @ [Select ''..'']
             else leaf f)
        (child_names [''NAMES'', ''APPS''] c))) cs)"

fun walk_lines ::
  "(nat \<Rightarrow> string \<Rightarrow> string list) \<Rightarrow> (card_file list \<Rightarrow> string \<Rightarrow> card_file \<Rightarrow> string list) \<Rightarrow>
   nat \<Rightarrow> card_file list \<Rightarrow> card_file \<Rightarrow> string list" where
  "walk_lines pre leaf depth ps (CardFile a cs) =
     concat (map (\<lambda>c. concat (map
        (\<lambda>f. pre depth f @
             (if is_dir_name f then walk_lines pre leaf (Suc depth) (CardFile a cs # ps) c
              else leaf (CardFile a cs # ps) f c))
        (child_names [''NAMES'', ''APPS''] c))) cs)"

text \<open>
  The line that \<^verbatim>\<open>walk\<close> writes for a child before it looks at the name, when it
  lists the tree (no action is given).
\<close>

definition pre_lines :: "bool \<Rightarrow> nat \<Rightarrow> string \<Rightarrow> string list" where
  "pre_lines listing indent f = (if listing then [concat (replicate indent ''  '') @ f] else [])"

text \<open>
  The trees on which the walk runs through: every directory that is entered selects,
  and every listed child with a directory name is found under that name, which has no
  \<open>/\<close>, and is such a tree itself; \<open>leaf_ok\<close> is what is asked of the other children.
  The height of a tree bounds the depth of the recursion.
\<close>

fun walkable :: "(card_file \<Rightarrow> string \<Rightarrow> card_file \<Rightarrow> bool) \<Rightarrow> card_file \<Rightarrow> bool" where
  "walkable leaf_ok (CardFile a cs) =
     (select_sw a = None \<and>
      (\<forall>c\<in>set cs. \<forall>f\<in>set (child_names [''NAMES'', ''APPS''] c).
         if is_dir_name f
         then CHR ''/'' \<notin> set f \<and> find_child f (CardFile a cs) = Some c \<and> walkable leaf_ok c
         else leaf_ok (CardFile a cs) f c))"

fun height :: "card_file \<Rightarrow> nat" where
  "height (CardFile a cs) = Suc (foldr (\<lambda>c m. max (height c) m) cs 0)"

text \<open>
  A file that export can select under its name from its directory, read, and leave
  again; and the script that the design asks for such a file: the directory, the file
  and its structure as comments, the absolute path to select it again, one blob for a
  transparent file and one blob per record index for a record-structured file.
\<close>

definition plain_name :: "string \<Rightarrow> bool" where
  "plain_name f = (f \<noteq> [] \<and> CHR ''/'' \<notin> set f \<and> f \<noteq> ''.'' \<and> f \<noteq> ''..'')"

definition exportable :: "card_file \<Rightarrow> string \<Rightarrow> card_file \<Rightarrow> bool" where
  "exportable d f c =
     (plain_name f \<and> find_child f d = Some c \<and> select_sw (attr c) = None \<and>
      select_sw (attr d) = None \<and> file_type (attr c) = EF \<and>
      ef_structure (attr c) \<noteq> None \<and> read_sw (attr c) = None)"

definition export_script :: "card_file list \<Rightarrow> card_file \<Rightarrow> string list" where
  "export_script dirs c =
     [''# directory:'' @ join ''/'' (map (label True) (rev dirs)) @ '' ('' @
        join ''/'' (map (label False) (rev dirs)) @ '')'',
      ''# file:'' @ label True c @ '' ('' @ label False c @ '')'',
      ''# structure: '' @ (case ef_structure (attr c) of None \<Rightarrow> [] | Some s \<Rightarrow> structure_tag s)] @
     map (\<lambda>g. ''select '' @ label True g) (rev (c # dirs)) @
     (case ef_structure (attr c) of
        Some Transparent \<Rightarrow> [''update_binary '' @ concat (body (attr c))]
      | Some LinearFixed \<Rightarrow>
          map (\<lambda>r. ''update_record '' @ str_int r @ '' '' @ body (attr c) ! nat (r - 1))
            [1..int (length (body (attr c)))]
      | Some Cyclic \<Rightarrow>
          map (\<lambda>r. ''update_record '' @ str_int r @ '' '' @ body (attr c) ! nat (r - 1))
            [1..int (length (body (attr c)))]
      | _ \<Rightarrow> []) @
     [''#'']"

text \<open>
  A session with a trace, and a card whose names do not follow the types: a DF with the
  name \<open>TELECOM\<close> and an EF with the name \<open>DF.LOG\<close>.
\<close>

definition traced_start :: "card_file \<Rightarrow> (runtime_state \<times> event list) cmd" where
  "traced_start mf =
     \<lparr>rs = (\<lparr>selected_file = mf, parents = []\<rparr>, []), out_lines = [], prompt = [],
      numeric_path = False\<rparr>"

definition odd_card :: card_file where
  "odd_card = mk_df MF ''3f00'' ''MF''
     [mk_df DF ''7f10'' ''TELECOM'' [mk_ef ''6f3a'' ''EF.ADN'' LinearFixed [''aa'', ''bb'']],
      mk_ef ''2f06'' ''DF.LOG'' Transparent [''00''],
      mk_ef ''2fe2'' ''EF.ICCID'' Transparent [''9888'']]"

section \<open>Paths by name\<close>

text \<open>
  An absolute path expression is written from its elements with a \<open>/\<close> before each.
  The elements are a path by name below a directory when every element is neither
  \<open>.\<close> nor \<open>..\<close> and resolves, under the directory reached so far, to a file that has
  the element as its name and that the card selects.
\<close>

definition absolute_path :: "string list \<Rightarrow> string" where
  "absolute_path elems = concat (map (\<lambda>e. ''/'' @ e) elems)"

fun named_path :: "card_file \<Rightarrow> string list \<Rightarrow> bool" where
  "named_path d [] = True"
| "named_path d (e # es) =
     (e \<noteq> ''.'' \<and> e \<noteq> ''..'' \<and>
      (case find_child e d of
         None \<Rightarrow> False
       | Some c \<Rightarrow> name (attr c) = Some e \<and> select_sw (attr c) = None \<and> named_path c es))"

section \<open>Properties of the service table\<close>

lemma EF_UST_keys: "map fst EF_UST_items = [1..111]"
  unfolding EF_UST_items_def
  apply (simp only: list.map fst_conv)
  apply (simp add: upto_rec1 [of 1])
  done

lemma EF_UST_values: "[] \<notin> set (map snd EF_UST_items)"
  unfolding EF_UST_items_def
  apply (simp only: list.map snd_conv)
  apply simp
  done

text \<open>
  Claim C10. The keys of \<open>EF_UST_map\<close> are exactly the integers 1 to 111, and no key
  is mapped to the empty string.
\<close>

theorem EF_UST_map_keys_and_values:
  "dom EF_UST_map = {1..111} \<and> [] \<notin> ran EF_UST_map"
proof
  show "dom EF_UST_map = {1..111}"
    unfolding EF_UST_map_def dom_map_of_conv_image_fst
    using EF_UST_keys by (metis set_map set_upto)
next
  have "distinct (map fst EF_UST_items)"
    by (simp only: EF_UST_keys distinct_upto)
  then have "ran EF_UST_map = snd ` set EF_UST_items"
    unfolding EF_UST_map_def by (rule ran_distinct)
  with EF_UST_values show "[] \<notin> ran EF_UST_map" by simp
qed

section \<open>The prompt\<close>

text \<open>
  Claim C9. When \<^verbatim>\<open>do_select\<close> completes, and when the \<^verbatim>\<open>numeric_path\<close> setting
  changes, the prompt is \<open>pySIM-shell (\<close>, the fully qualified path of the selected file
  joined with \<open>/\<close>, and \<open>)> \<close>; the path is asked for with names preferred exactly
  when \<^verbatim>\<open>numeric_path\<close> is false.
\<close>

theorem prompt_follows_selection:
  "(do_select ops json_dumps arg_list sh = (Inr u, sh') \<longrightarrow>
      prompt sh' = ''pySIM-shell ('' @
        join ''/'' (rs_fully_qualified_path ops (\<not> numeric_path sh') (rs sh')) @ '')> '') \<and>
   (numeric_path sh \<noteq> new \<longrightarrow>
      numeric_path (set_numeric_path ops new sh) = new \<and>
      prompt (set_numeric_path ops new sh) = ''pySIM-shell ('' @
        join ''/'' (rs_fully_qualified_path ops (\<not> new) (rs (set_numeric_path ops new sh))) @
        '')> '')"
  by (auto simp: do_select_def update_prompt_def set_numeric_path_def onchange_numeric_path_def
        Let_def poutput_def split: list.splits sum.splits prod.splits)

theorem prompt_follows_selection_witness:
  "do_select card_runtime (\<lambda>fcp_dec. ''{}'') [''DF.TELECOM''] (start sim_card) =
     (Inr (), in_telecom sim_card) \<and>
   prompt (in_telecom sim_card) = ''pySIM-shell (MF/DF.TELECOM)> '' \<and>
   numeric_path (in_telecom sim_card) \<noteq> True \<and>
   prompt (set_numeric_path card_runtime True (in_telecom sim_card)) =
     ''pySIM-shell (3f00/7f10)> ''"
proof -
  have sel: "do_select card_runtime (\<lambda>fcp_dec. ''{}'') [''DF.TELECOM''] (start sim_card) =
     (Inr (), in_telecom sim_card)"
    by code_simp
  have np: "numeric_path (in_telecom sim_card) \<noteq> True"
    by code_simp
  have names: "join ''/'' (rs_fully_qualified_path card_runtime
      (\<not> numeric_path (in_telecom sim_card)) (rs (in_telecom sim_card))) = ''MF/DF.TELECOM''"
    by code_simp
  have fids: "join ''/'' (rs_fully_qualified_path card_runtime (\<not> True)
      (rs (set_numeric_path card_runtime True (in_telecom sim_card)))) = ''3f00/7f10''"
    by code_simp
  from sel np names fids
    prompt_follows_selection [where ops = card_runtime and json_dumps = "\<lambda>fcp_dec. ''{}''"
      and arg_list = "[''DF.TELECOM'']" and sh = "start sim_card"
      and sh' = "in_telecom sim_card" and new = True]
    prompt_follows_selection [where ops = card_runtime and sh = "in_telecom sim_card"
      and new = True]
  show ?thesis by simp
qed

section \<open>Lines written by export\<close>

lemma poutput_simps [simp]:
  "out_lines (poutput l sh) = out_lines sh @ [l]"
  "rs (poutput l sh) = rs sh"
  "prompt (poutput l sh) = prompt sh"
  "numeric_path (poutput l sh) = numeric_path sh"
  by (simp_all add: poutput_def)

lemma select_lines_out:
  "out_lines (foldl (\<lambda>s f. poutput (''select '' @ f) s) sh fs) =
     out_lines sh @ map (\<lambda>f. ''select '' @ f) fs"
  by (induction fs arbitrary: sh) simp_all

lemma select_lines_rs:
  "rs (foldl (\<lambda>s f. poutput (''select '' @ f) s) sh fs) = rs sh"
  by (induction fs arbitrary: sh) simp_all

lemmas select_lines_simps [simp] =
  select_lines_out [unfolded append_Cons append_Nil]
  select_lines_rs [unfolded append_Cons append_Nil]

lemma export_returns: "\<exists>sh2. export ops f sh = (Inr (), sh2)"
  by (simp add: export_def Let_def split_beta split: sum.splits)

subsection \<open>The script format\<close>

lemma extends_refl [simp]: "extends_script sh sh"
  by (simp add: extends_script_def)

lemma extends_rs [simp]: "extends_script sh (sh'\<lparr>rs := r\<rparr>) = extends_script sh sh'"
  by (simp add: extends_script_def)

lemma extends_poutput [simp]:
  "script_line l \<Longrightarrow> extends_script sh sh' \<Longrightarrow> extends_script sh (poutput l sh')"
  by (auto simp: extends_script_def)

lemma comment_line [simp]: "script_line (CHR ''#'' # l)"
  by (simp add: script_line_def is_comment_def)

lemma select_line: "script_line (''select '' @ l)"
  by (simp add: script_line_def is_command_def first_token_def)

lemma update_binary_line: "script_line (''update_binary '' @ l)"
  by (simp add: script_line_def is_command_def first_token_def)

lemma update_record_line: "script_line (''update_record '' @ l)"
  by (simp add: script_line_def is_command_def first_token_def)

lemmas command_lines [simp] =
  select_line [unfolded append_Cons append_Nil]
  update_binary_line [unfolded append_Cons append_Nil]
  update_record_line [unfolded append_Cons append_Nil]

lemma read_records_extends [simp]:
  "extends_script sh0 sh \<Longrightarrow> extends_script sh0 (snd (read_records ops idxs sh))"
  by (induction idxs arbitrary: sh) (simp_all split: sum.splits)

lemma select_lines_extends:
  "extends_script sh0 sh \<Longrightarrow>
   extends_script sh0 (foldl (\<lambda>s f. poutput (''select '' @ f) s) sh fs)"
  by (induction fs arbitrary: sh) simp_all

lemmas select_lines_extends_cons [simp] =
  select_lines_extends [unfolded append_Cons append_Nil]

lemma export_reads_extends [simp]:
  "extends_script sh0 sh \<Longrightarrow> extends_script sh0 (snd (export_reads ops fd struct sh))"
  unfolding export_reads_def
  by (simp add: split_beta split: sum.splits option.splits)

lemma export_try_extends [simp]:
  "extends_script sh0 sh \<Longrightarrow> extends_script sh0 (snd (export_try ops f sh))"
  unfolding export_try_def Let_def
  by (simp add: split_beta split: sum.splits option.splits)

lemma export_extends [simp]:
  "extends_script sh0 sh \<Longrightarrow> extends_script sh0 (snd (export ops f sh))"
  unfolding export_def Let_def
  by (simp add: split_beta split: sum.splits option.splits)

lemma walk_loop_extends:
  assumes "\<And>sh r sh'. recurse sh = Some (r, sh') \<Longrightarrow> extends_script sh0 sh \<Longrightarrow>
             extends_script sh0 sh'"
  shows "walk_loop recurse ops indent (Some (export ops)) files sh = Some (r, sh') \<Longrightarrow>
         extends_script sh0 sh \<Longrightarrow> extends_script sh0 sh'"
proof (induction files arbitrary: sh)
  case Nil
  then show ?case by simp
next
  case (Cons f files)
  show ?case
  proof (cases "is_dir_name f")
    case True
    obtain r1 s1 where sel: "rs_select ops f (rs sh) = (r1, s1)"
      by (cases "rs_select ops f (rs sh)")
    show ?thesis
    proof (cases r1)
      case (Inl e)
      with Cons.prems True sel show ?thesis by auto
    next
      case into: (Inr fcp_dec)
      show ?thesis
      proof (cases "recurse (sh\<lparr>rs := s1\<rparr>)")
        case None
        with Cons.prems True sel into show ?thesis by simp
      next
        case (Some p)
        obtain r2 sh2 where p: "p = (r2, sh2)" by (cases p)
        have e2: "extends_script sh0 sh2"
          using assms [of "sh\<lparr>rs := s1\<rparr>" r2 sh2] Some p Cons.prems(2) by simp
        show ?thesis
        proof (cases r2)
          case (Inl e)
          with Cons.prems True sel into Some p e2 show ?thesis by auto
        next
          case walked: (Inr u)
          obtain r3 s3 where up: "rs_select ops ''..'' (rs sh2) = (r3, s3)"
            by (cases "rs_select ops ''..'' (rs sh2)")
          show ?thesis
          proof (cases r3)
            case (Inl e)
            with Cons.prems True sel into Some p walked up e2 show ?thesis by auto
          next
            case (Inr fcp_up)
            with Cons.prems True sel into Some p walked up
            have "walk_loop recurse ops indent (Some (export ops)) files (sh2\<lparr>rs := s3\<rparr>) =
                    Some (r, sh')"
              by simp
            then show ?thesis using Cons.IH [of "sh2\<lparr>rs := s3\<rparr>"] e2 by simp
          qed
        qed
      qed
    qed
  next
    case False
    obtain sh2 where ex: "export ops f sh = (Inr (), sh2)"
      using export_returns by blast
    with Cons.prems False
    have "walk_loop recurse ops indent (Some (export ops)) files sh2 = Some (r, sh')"
      by simp
    moreover have "extends_script sh0 sh2"
      using export_extends [OF Cons.prems(2), of ops f] ex by simp
    ultimately show ?thesis
      using Cons.IH [of sh2] by simp
  qed
qed

lemma walk_extends:
  "walk fuel ops indent (Some (export ops)) sh = Some (r, sh') \<Longrightarrow>
   extends_script sh0 sh \<Longrightarrow> extends_script sh0 sh'"
proof (induction fuel arbitrary: indent sh r sh')
  case 0
  then show ?case by simp
next
  case (Suc fuel)
  from Suc.prems show ?case
    by (simp add: Let_def) (erule walk_loop_extends [rotated], assumption, erule Suc.IH, assumption)
qed

text \<open>
  Claim C5. Every line that the export command writes, for one file or for the walk of
  the tree, is a comment with a leading \<open>#\<close> or a command line that starts with one of
  the tokens \<open>select\<close>, \<open>update_binary\<close> and \<open>update_record\<close> and a space. A line is
  one call of \<^verbatim>\<open>poutput\<close>.
\<close>

theorem export_writes_script_lines:
  assumes "do_export fuel ops filename sh = Some (r, sh')"
  shows "\<exists>new. out_lines sh' = out_lines sh @ new \<and> list_all script_line new"
proof -
  have "extends_script sh sh'"
  proof (cases "filename = None \<or> filename = Some []")
    case True
    with assms have "walk fuel ops 0 (Some (export ops)) sh = Some (r, sh')"
      by (auto simp: do_export_def)
    then show ?thesis by (rule walk_extends) simp
  next
    case False
    then obtain fn where "filename = Some fn" "fn \<noteq> []" by auto
    with assms have "sh' = snd (export ops fn sh)" by (auto simp: do_export_def)
    then show ?thesis by simp
  qed
  then show ?thesis by (simp add: extends_script_def)
qed

theorem export_writes_script_lines_witness:
  "\<exists>r sh'. do_export 3 card_runtime None (start locked_card) = Some (r, sh') \<and>
     (\<exists>new. out_lines sh' = out_lines (start locked_card) @ new \<and> list_all script_line new)"
proof -
  have "do_export 3 card_runtime None (start locked_card) \<noteq> None"
    by code_simp
  then obtain r sh' where run: "do_export 3 card_runtime None (start locked_card) = Some (r, sh')"
    by fastforce
  from export_writes_script_lines [OF run] run show ?thesis by blast
qed

subsection \<open>The script of one file\<close>

lemma read_records_ok:
  assumes "\<forall>r\<in>set idxs. rs_read_record ops r (rs sh) = Inr (data r, sw r)"
  shows "read_records ops idxs sh =
           (Inr (), sh\<lparr>out_lines := out_lines sh @
              map (\<lambda>r. ''update_record '' @ str_int r @ '' '' @ data r) idxs\<rparr>)"
  using assms by (induction idxs arbitrary: sh) (simp_all add: poutput_def)

lemma export_reads_ok:
  assumes "struct = ''transparent'' \<Longrightarrow> rs_read_binary ops (rs sh) = Inr (blob, bsw)"
    and "struct = ''cyclic'' \<or> struct = ''linear_fixed'' \<Longrightarrow>
           fd_num_of_rec fd = Some n \<and>
           (\<forall>r\<in>{1..n}. rs_read_record ops r (rs sh) = Inr (data r, sw r))"
  shows "export_reads ops fd struct sh =
           (Inr (), sh\<lparr>out_lines := out_lines sh @
              (if struct = ''transparent'' then [''update_binary '' @ blob]
               else if struct = ''cyclic'' \<or> struct = ''linear_fixed''
                 then map (\<lambda>r. ''update_record '' @ str_int r @ '' '' @ data r) [1..n]
               else [])\<rparr>)"
proof (cases "struct = ''transparent''")
  case True
  with assms(1) show ?thesis by (simp add: export_reads_def poutput_def)
next
  case False
  show ?thesis
  proof (cases "struct = ''cyclic'' \<or> struct = ''linear_fixed''")
    case True
    with assms(2) have n: "fd_num_of_rec fd = Some n"
      and rd: "\<forall>r\<in>set [1..n]. rs_read_record ops r (rs sh) = Inr (data r, sw r)" by auto
    show ?thesis
      using False True n read_records_ok [OF rd] by (simp add: export_reads_def)
  next
    case False
    with \<open>struct \<noteq> ''transparent''\<close> show ?thesis by (simp add: export_reads_def)
  qed
qed

text \<open>
  Claim C4. When the file selects, its decoded response has a structure, and the reads
  succeed, export writes, after the lines that were there: the comment with the
  directory, the comment with the name and the id of the file, the comment with the
  structure; one \<open>select\<close> line for every element of the fully qualified path by names;
  for a transparent file one \<open>update_binary\<close> line with what \<^verbatim>\<open>read_binary\<close> returned,
  for a cyclic or linear-fixed file one \<open>update_record\<close> line for every index from 1 to
  the record count, in ascending order; and then the closing comment, after a comment on
  the failure when the final select of \<open>..\<close> fails.
\<close>

theorem export_emits_file_script:
  assumes sel: "rs_select ops filename (rs sh) = (Inr fcp_dec, s)"
    and fd: "file_descriptor fcp_dec = Some fd" "fd_structure fd = Some struct"
    and pl: "rs_fully_qualified_path ops True s = path_list" "path_list \<noteq> []"
    and plf: "rs_fully_qualified_path ops False s = path_list_fid" "path_list_fid \<noteq> []"
    and bin: "struct = ''transparent'' \<Longrightarrow> rs_read_binary ops s = Inr (blob, bsw)"
    and recs: "struct = ''cyclic'' \<or> struct = ''linear_fixed'' \<Longrightarrow>
           fd_num_of_rec fd = Some n \<and>
           (\<forall>r\<in>{1..n}. rs_read_record ops r s = Inr (data r, sw r))"
  shows "out_lines (snd (export ops filename sh)) =
           out_lines sh @
           [''# directory:'' @ join ''/'' (rs_fully_qualified_path ops True (rs sh)) @ '' ('' @
              join ''/'' (rs_fully_qualified_path ops False (rs sh)) @ '')'',
            ''# file:'' @ last path_list @ '' ('' @ last path_list_fid @ '')'',
            ''# structure: '' @ struct] @
           map (\<lambda>f. ''select '' @ f) path_list @
           (if struct = ''transparent'' then [''update_binary '' @ blob]
            else if struct = ''cyclic'' \<or> struct = ''linear_fixed''
              then map (\<lambda>r. ''update_record '' @ str_int r @ '' '' @ data r) [1..n]
            else []) @
           (case fst (rs_select ops ''..'' s) of
              Inl e \<Rightarrow> [''# bad file:'' @ filename @ '', '' @ str_error e]
            | Inr fcp_up \<Rightarrow> []) @
           [''#'']"
proof -
  let ?sh4 = "foldl (\<lambda>s f. poutput (''select '' @ f) s)
      (poutput (''# structure: '' @ struct)
        (poutput (''# file:'' @ last path_list @ '' ('' @ last path_list_fid @ '')'')
          ((poutput (''# directory:'' @
              join ''/'' (rs_fully_qualified_path ops True (rs sh)) @ '' ('' @
              join ''/'' (rs_fully_qualified_path ops False (rs sh)) @ '')'') sh)\<lparr>rs := s\<rparr>)))
      path_list"
  have rs4: "rs ?sh4 = s" by simp
  have reads: "export_reads ops fd struct ?sh4 =
           (Inr (), ?sh4\<lparr>out_lines := out_lines ?sh4 @
              (if struct = ''transparent'' then [''update_binary '' @ blob]
               else if struct = ''cyclic'' \<or> struct = ''linear_fixed''
                 then map (\<lambda>r. ''update_record '' @ str_int r @ '' '' @ data r) [1..n]
               else [])\<rparr>)"
    by (rule export_reads_ok) (use bin recs rs4 in auto)
  obtain r7 s7 where up: "rs_select ops ''..'' s = (r7, s7)"
    by (cases "rs_select ops ''..'' s")
  show ?thesis
    unfolding export_def export_try_def Let_def
    using sel fd pl plf up
    by (simp add: reads [unfolded append_Cons append_Nil] split: sum.splits)
qed

theorem export_emits_file_script_witness:
  "out_lines (snd (export card_runtime ''EF.ICCID'' (start sim_card))) =
     [''# directory:MF (3f00)'', ''# file:EF.ICCID (2fe2)'', ''# structure: transparent'',
      ''select MF'', ''select EF.ICCID'', ''update_binary 9888'', ''#''] \<and>
   out_lines (snd (export card_runtime ''EF.ADN'' (in_telecom sim_card))) =
     [''{}'', ''# directory:MF/DF.TELECOM (3f00/7f10)'', ''# file:EF.ADN (6f3a)'',
      ''# structure: linear_fixed'', ''select MF'', ''select DF.TELECOM'', ''select EF.ADN'',
      ''update_record 1 aa'', ''update_record 2 bb'', ''#'']"
proof
  let ?iccid = "mk_ef ''2fe2'' ''EF.ICCID'' Transparent [''9888'']"
  let ?s = "\<lparr>selected_file = ?iccid, parents = [sim_card]\<rparr>"
  have sel: "rs_select card_runtime ''EF.ICCID'' (rs (start sim_card)) = (Inr (decode_fcp ?iccid), ?s)"
    by code_simp
  have fd: "file_descriptor (decode_fcp ?iccid) =
              Some \<lparr>fd_structure = Some ''transparent'', fd_num_of_rec = None\<rparr>"
     "fd_structure \<lparr>fd_structure = Some ''transparent'', fd_num_of_rec = None\<rparr> = Some ''transparent''"
    by code_simp+
  have pl: "rs_fully_qualified_path card_runtime True ?s = [''MF'', ''EF.ICCID'']"
     "[''MF'', ''EF.ICCID''] \<noteq> []"
     "rs_fully_qualified_path card_runtime False ?s = [''3f00'', ''2fe2'']"
     "[''3f00'', ''2fe2''] \<noteq> []"
    by code_simp+
  have bin: "rs_read_binary card_runtime ?s = Inr (''9888'', ''9000'')"
    by code_simp
  have rhs: "out_lines (start sim_card) @
       [''# directory:'' @ join ''/'' (rs_fully_qualified_path card_runtime True (rs (start sim_card))) @ '' ('' @
              join ''/'' (rs_fully_qualified_path card_runtime False (rs (start sim_card))) @ '')'',
            ''# file:'' @ last [''MF'', ''EF.ICCID''] @ '' ('' @ last [''3f00'', ''2fe2''] @ '')'',
            ''# structure: '' @ ''transparent''] @
           map (\<lambda>f. ''select '' @ f) [''MF'', ''EF.ICCID''] @
           [''update_binary '' @ ''9888''] @
           (case fst (rs_select card_runtime ''..'' ?s) of
              Inl e \<Rightarrow> [''# bad file:'' @ ''EF.ICCID'' @ '', '' @ str_error e]
            | Inr fcp_up \<Rightarrow> []) @
           [''#''] =
     [''# directory:MF (3f00)'', ''# file:EF.ICCID (2fe2)'', ''# structure: transparent'',
      ''select MF'', ''select EF.ICCID'', ''update_binary 9888'', ''#'']"
    by code_simp
  from export_emits_file_script [where data = "\<lambda>r. []" and sw = "\<lambda>r. []" and n = 0,
      OF sel fd pl(1,2) pl(3,4) bin] rhs
  show "out_lines (snd (export card_runtime ''EF.ICCID'' (start sim_card))) =
     [''# directory:MF (3f00)'', ''# file:EF.ICCID (2fe2)'', ''# structure: transparent'',
      ''select MF'', ''select EF.ICCID'', ''update_binary 9888'', ''#'']"
    by simp
next
  let ?adn = "mk_ef ''6f3a'' ''EF.ADN'' LinearFixed [''aa'', ''bb'']"
  let ?tel = "mk_df DF ''7f10'' ''DF.TELECOM'' [?adn]"
  let ?s = "\<lparr>selected_file = ?adn, parents = [?tel, sim_card]\<rparr>"
  let ?fd = "\<lparr>fd_structure = Some ''linear_fixed'', fd_num_of_rec = Some 2\<rparr>"
  have sel: "rs_select card_runtime ''EF.ADN'' (rs (in_telecom sim_card)) = (Inr (decode_fcp ?adn), ?s)"
    by code_simp
  have fd: "file_descriptor (decode_fcp ?adn) = Some ?fd"
     "fd_structure ?fd = Some ''linear_fixed''"
    by code_simp+
  have pl: "rs_fully_qualified_path card_runtime True ?s = [''MF'', ''DF.TELECOM'', ''EF.ADN'']"
     "[''MF'', ''DF.TELECOM'', ''EF.ADN''] \<noteq> []"
     "rs_fully_qualified_path card_runtime False ?s = [''3f00'', ''7f10'', ''6f3a'']"
     "[''3f00'', ''7f10'', ''6f3a''] \<noteq> []"
    by code_simp+
  have recs: "fd_num_of_rec ?fd = Some 2 \<and>
      (\<forall>r\<in>{1..2}. rs_read_record card_runtime r ?s = Inr ([''aa'', ''bb''] ! nat (r - 1), ''9000''))"
    by code_simp
  have rhs: "out_lines (in_telecom sim_card) @
       [''# directory:'' @ join ''/'' (rs_fully_qualified_path card_runtime True (rs (in_telecom sim_card))) @ '' ('' @
              join ''/'' (rs_fully_qualified_path card_runtime False (rs (in_telecom sim_card))) @ '')'',
            ''# file:'' @ last [''MF'', ''DF.TELECOM'', ''EF.ADN''] @ '' ('' @ last [''3f00'', ''7f10'', ''6f3a''] @ '')'',
            ''# structure: '' @ ''linear_fixed''] @
           map (\<lambda>f. ''select '' @ f) [''MF'', ''DF.TELECOM'', ''EF.ADN''] @
           map (\<lambda>r. ''update_record '' @ str_int r @ '' '' @ [''aa'', ''bb''] ! nat (r - 1)) [1..2] @
           (case fst (rs_select card_runtime ''..'' ?s) of
              Inl e \<Rightarrow> [''# bad file:'' @ ''EF.ADN'' @ '', '' @ str_error e]
            | Inr fcp_up \<Rightarrow> []) @
           [''#''] =
     [''{}'', ''# directory:MF/DF.TELECOM (3f00/7f10)'', ''# file:EF.ADN (6f3a)'',
      ''# structure: linear_fixed'', ''select MF'', ''select DF.TELECOM'', ''select EF.ADN'',
      ''update_record 1 aa'', ''update_record 2 bb'', ''#'']"
    by code_simp
  from export_emits_file_script [where blob = "[]" and bsw = "[]"
      and data = "\<lambda>r. [''aa'', ''bb''] ! nat (r - 1)" and sw = "\<lambda>r. ''9000''" and n = 2,
      OF sel fd pl(1,2) pl(3,4) _ recs] rhs
  show "out_lines (snd (export card_runtime ''EF.ADN'' (in_telecom sim_card))) =
     [''{}'', ''# directory:MF/DF.TELECOM (3f00/7f10)'', ''# file:EF.ADN (6f3a)'',
      ''# structure: linear_fixed'', ''select MF'', ''select DF.TELECOM'', ''select EF.ADN'',
      ''update_record 1 aa'', ''update_record 2 bb'', ''#'']"
    by simp
qed


section \<open>Failures during export\<close>

text \<open>A select or a read that raises inside export makes the \<^verbatim>\<open>try\<close> suite raise.\<close>

lemma export_try_select_fails:
  "rs_select ops f (rs sh) = (Inl e, s) \<Longrightarrow> export_try ops f sh = (Inl e, sh\<lparr>rs := s\<rparr>)"
  by (simp add: export_try_def)

lemma export_reads_binary_fails:
  "rs_read_binary ops (rs sh) = Inl e \<Longrightarrow>
   export_reads ops fd ''transparent'' sh = (Inl e, sh)"
  by (simp add: export_reads_def)

lemma read_records_fails:
  "r \<in> set idxs \<Longrightarrow> rs_read_record ops r (rs sh) = Inl e \<Longrightarrow>
   \<exists>e' sh'. read_records ops idxs sh = (Inl e', sh') \<and> rs sh' = rs sh"
proof (induction idxs arbitrary: sh)
  case Nil
  then show ?case by simp
next
  case (Cons i idxs)
  show ?case
  proof (cases "rs_read_record ops i (rs sh)")
    case (Inl e')
    then show ?thesis by simp
  next
    case (Inr res)
    with Cons.prems have "r \<in> set idxs" by auto
    from Cons.IH [OF this, of "poutput (''update_record '' @ str_int i @ '' '' @ fst res) sh"]
      Cons.prems(2) Inr
    show ?thesis by simp
  qed
qed




section \<open>The cursor after export\<close>

text \<open>
  Claim C1, at a file that selects and does not read. With \<open>DF.TELECOM\<close> selected,
  the export of \<open>EF.MSISDN\<close> catches the failure of the read and returns, and the
  selected file is then \<open>EF.MSISDN\<close>, not \<open>DF.TELECOM\<close>: the select of \<open>..\<close> is the last
  statement of the \<^verbatim>\<open>try\<close> suite and is not reached.
\<close>

theorem export_leaves_cursor_at_unread_file:
  "fully_qualified_path True (rs (in_telecom locked_card)) = [''MF'', ''DF.TELECOM''] \<and>
   fst (export card_runtime ''EF.MSISDN'' (in_telecom locked_card)) = Inr () \<and>
   fully_qualified_path True (rs (snd (export card_runtime ''EF.MSISDN'' (in_telecom locked_card)))) =
     [''MF'', ''DF.TELECOM'', ''EF.MSISDN'']"
  by code_simp

text \<open>In general: when the reads raise after the select, the state is the one the select left.\<close>

lemma export_cursor_after_read_failure:
  assumes "rs_select ops f (rs sh) = (Inr fcp_dec, s)"
    and "file_descriptor fcp_dec = Some fd" and "fd_structure fd = Some ''transparent''"
    and "rs_fully_qualified_path ops True s \<noteq> []" and "rs_fully_qualified_path ops False s \<noteq> []"
    and "rs_read_binary ops s = Inl e"
  shows "rs (snd (export ops f sh)) = s"
  using assms
  by (simp add: export_def export_try_def Let_def export_reads_binary_fails)

text \<open>And when the file selects and reads, the state is the one the select of \<open>..\<close> leaves.\<close>

lemma export_cursor_after_success:
  assumes "rs_select ops f (rs sh) = (Inr fcp_dec, s)"
    and "file_descriptor fcp_dec = Some fd" and "fd_structure fd = Some struct"
    and "rs_fully_qualified_path ops True s \<noteq> []" and "rs_fully_qualified_path ops False s \<noteq> []"
    and "struct = ''transparent'' \<Longrightarrow> rs_read_binary ops s = Inr (blob, bsw)"
    and "struct = ''cyclic'' \<or> struct = ''linear_fixed'' \<Longrightarrow>
           fd_num_of_rec fd = Some n \<and>
           (\<forall>r\<in>{1..n}. rs_read_record ops r s = Inr (data r, sw r))"
  shows "rs (snd (export ops f sh)) = snd (rs_select ops ''..'' s)"
proof -
  let ?sh4 = "foldl (\<lambda>s f. poutput (''select '' @ f) s)
      (poutput (''# structure: '' @ struct)
        (poutput (''# file:'' @ last (rs_fully_qualified_path ops True s) @ '' ('' @
                   last (rs_fully_qualified_path ops False s) @ '')'')
          ((poutput (''# directory:'' @
              join ''/'' (rs_fully_qualified_path ops True (rs sh)) @ '' ('' @
              join ''/'' (rs_fully_qualified_path ops False (rs sh)) @ '')'') sh)\<lparr>rs := s\<rparr>)))
      (rs_fully_qualified_path ops True s)"
  have rs4: "rs ?sh4 = s" by simp
  have reads: "export_reads ops fd struct ?sh4 =
           (Inr (), ?sh4\<lparr>out_lines := out_lines ?sh4 @
              (if struct = ''transparent'' then [''update_binary '' @ blob]
               else if struct = ''cyclic'' \<or> struct = ''linear_fixed''
                 then map (\<lambda>r. ''update_record '' @ str_int r @ '' '' @ data r) [1..n]
               else [])\<rparr>)"
    by (rule export_reads_ok) (use assms(6,7) rs4 in auto)
  obtain r7 s7 where up: "rs_select ops ''..'' s = (r7, s7)"
    by (cases "rs_select ops ''..'' s")
  show ?thesis
    unfolding export_def export_try_def Let_def
    using assms(1-5) up
    by (simp add: reads [unfolded append_Cons append_Nil] split: sum.splits)
qed


section \<open>Selecting on the card\<close>

lemma split_path_plain:
  "CHR ''/'' \<notin> set f \<Longrightarrow> split_path acc f = (if acc @ f = [] then [] else [acc @ f])"
  by (induction f arbitrary: acc) auto

lemma path_elements_plain:
  "CHR ''/'' \<notin> set f \<Longrightarrow> f \<noteq> [] \<Longrightarrow> path_elements f = [f]"
  by (simp add: path_elements_def split_path_plain)

lemma is_absolute_plain: "CHR ''/'' \<notin> set f \<Longrightarrow> \<not> is_absolute f"
  by (cases f) (auto simp: is_absolute_def)

lemma dir_name_plain: "is_dir_name f \<Longrightarrow> f \<noteq> [] \<and> f \<noteq> ''.'' \<and> f \<noteq> ''..''"
  by (auto simp: is_dir_name_def)

lemma select_child:
  assumes "CHR ''/'' \<notin> set f" "f \<noteq> []" "f \<noteq> ''.''" "f \<noteq> ''..''"
    and "find_child f (selected_file st) = Some c" and "select_sw (attr c) = None"
  shows "select f st =
           (Inr (decode_fcp c), \<lparr>selected_file = c, parents = selected_file st # parents st\<rparr>)"
  using assms
  by (simp add: select_def path_elements_plain is_absolute_plain select_element_def)

lemma select_parent:
  assumes "parents st = p # ps" and "select_sw (attr p) = None"
  shows "select ''..'' st = (Inr (decode_fcp p), \<lparr>selected_file = p, parents = ps\<rparr>)"
proof -
  have "path_elements ''..'' = [''..'']" by (simp add: path_elements_def)
  moreover have "\<not> is_absolute ''..''" by (simp add: is_absolute_def)
  ultimately show ?thesis using assms by (simp add: select_def select_element_def)
qed

lemma traced_simps [simp]:
  "rs_select (traced ops) f st =
     (case rs_select ops f (fst st) of (r, s) \<Rightarrow> (r, (s, snd st @ [Select f])))"
  "rs_read_binary (traced ops) st = rs_read_binary ops (fst st)"
  "rs_read_record (traced ops) r st = rs_read_record ops r (fst st)"
  "rs_fully_qualified_path (traced ops) b st = rs_fully_qualified_path ops b (fst st)"
  "rs_get_selectable_names (traced ops) flags st = rs_get_selectable_names ops flags (fst st)"
  by (simp_all add: traced_def)

lemma card_runtime_simps [simp]:
  "rs_select card_runtime = select"
  "rs_read_binary card_runtime = read_binary"
  "rs_read_record card_runtime = read_record"
  "rs_fully_qualified_path card_runtime = fully_qualified_path"
  "rs_get_selectable_names card_runtime = get_selectable_names"
  by (simp_all add: card_runtime_def)

lemma child_names_cases:
  "child_names [''NAMES'', ''APPS''] c = [] \<or> (\<exists>f. child_names [''NAMES'', ''APPS''] c = [f])"
  by (simp add: child_names_def split: option.splits)

lemma height_child: "c \<in> set cs \<Longrightarrow> height c \<le> foldr (\<lambda>c m. max (height c) m) cs 0"
  by (induction cs) auto

section \<open>The walk of a card tree\<close>

text \<open>
  The loop of \<^verbatim>\<open>walk\<close> over the listing of the children \<open>cs\<close> of the selected
  directory \<open>d\<close>, when the recursive call does on every directory child what \<open>E\<close>
  and \<open>L\<close> say, and the action does at every other child what \<open>leaf_events\<close> and
  \<open>leaf_lines\<close> say.
\<close>

lemma walk_loop_children:
  fixes act :: "(runtime_state \<times> event list) action option"
  assumes leaf: "\<And>f c sh. c \<in> set cs \<Longrightarrow> f \<in> set (child_names [''NAMES'', ''APPS''] c) \<Longrightarrow>
        \<not> is_dir_name f \<Longrightarrow>
        fst (rs sh) = \<lparr>selected_file = d, parents = ps\<rparr> \<Longrightarrow>
        (case act of None \<Rightarrow> (Inr (), sh) | Some a \<Rightarrow> a f sh) =
          (Inr (), sh\<lparr>out_lines := out_lines sh @ leaf_lines f c,
                     rs := (fst (rs sh), snd (rs sh) @ leaf_events f)\<rparr>)"
    and rec: "\<And>f c sh. c \<in> set cs \<Longrightarrow> f \<in> set (child_names [''NAMES'', ''APPS''] c) \<Longrightarrow>
        is_dir_name f \<Longrightarrow>
        fst (rs sh) = \<lparr>selected_file = c, parents = d # ps\<rparr> \<Longrightarrow>
        recurse sh = Some (Inr (), sh\<lparr>out_lines := out_lines sh @ L c,
                                      rs := (fst (rs sh), snd (rs sh) @ E c)\<rparr>)"
    and dirs: "\<And>f c. c \<in> set cs \<Longrightarrow> f \<in> set (child_names [''NAMES'', ''APPS''] c) \<Longrightarrow>
        is_dir_name f \<Longrightarrow>
        CHR ''/'' \<notin> set f \<and> find_child f d = Some c \<and> select_sw (attr c) = None"
    and d: "select_sw (attr d) = None"
    and cur: "fst (rs sh) = \<lparr>selected_file = d, parents = ps\<rparr>"
  shows "walk_loop recurse (traced card_runtime) indent act
           (concat (map (child_names [''NAMES'', ''APPS'']) cs)) sh =
         Some (Inr (),
           sh\<lparr>out_lines := out_lines sh @
                 concat (map (\<lambda>c. concat (map
                   (\<lambda>f. pre_lines (act = None) indent f @ (if is_dir_name f then L c else leaf_lines f c))
                   (child_names [''NAMES'', ''APPS''] c))) cs),
              rs := (fst (rs sh), snd (rs sh) @
                 concat (map (\<lambda>c. concat (map
                   (\<lambda>f. if is_dir_name f then Select f # E c @ [Select ''..''] else leaf_events f)
                   (child_names [''NAMES'', ''APPS''] c))) cs))\<rparr>)"
  using leaf rec dirs cur
proof (induction cs arbitrary: sh)
  case Nil
  show ?case by simp
next
  case (Cons c cs)
  have IH: "walk_loop recurse (traced card_runtime) indent act
           (concat (map (child_names [''NAMES'', ''APPS'']) cs)) sh' =
         Some (Inr (),
           sh'\<lparr>out_lines := out_lines sh' @
                 concat (map (\<lambda>c. concat (map
                   (\<lambda>f. pre_lines (act = None) indent f @ (if is_dir_name f then L c else leaf_lines f c))
                   (child_names [''NAMES'', ''APPS''] c))) cs),
              rs := (fst (rs sh'), snd (rs sh') @
                 concat (map (\<lambda>c. concat (map
                   (\<lambda>f. if is_dir_name f then Select f # E c @ [Select ''..''] else leaf_events f)
                   (child_names [''NAMES'', ''APPS''] c))) cs))\<rparr>)"
    if "fst (rs sh') = \<lparr>selected_file = d, parents = ps\<rparr>" for sh'
    using that
    apply (intro Cons.IH)
       apply (rule Cons.prems(1); simp)
      apply (rule Cons.prems(2); simp)
     apply (rule Cons.prems(3); simp)
    apply assumption
    done
  from child_names_cases [of c] show ?case
  proof
    assume "child_names [''NAMES'', ''APPS''] c = []"
    then show ?thesis using IH [OF Cons.prems(4)] by simp
  next
    assume "\<exists>f. child_names [''NAMES'', ''APPS''] c = [f]"
    then obtain f where f: "child_names [''NAMES'', ''APPS''] c = [f]" ..
    let ?sh1 = "case act of None \<Rightarrow> poutput (concat (replicate indent ''  '') @ f) sh | Some a \<Rightarrow> sh"
    have out1: "out_lines ?sh1 = out_lines sh @ pre_lines (act = None) indent f"
      and rs1: "rs ?sh1 = rs sh"
      by (simp_all add: pre_lines_def split: option.splits)
    have upd1: "?sh1\<lparr>out_lines := X\<rparr> = sh\<lparr>out_lines := X\<rparr>" for X
      by (simp add: poutput_def split: option.splits)
    show ?thesis
    proof (cases "is_dir_name f")
      case True
      from Cons.prems(3) [of c f] f True
      have plain: "CHR ''/'' \<notin> set f" and found: "find_child f d = Some c"
        and ok: "select_sw (attr c) = None" by auto
      let ?in = "\<lparr>selected_file = c, parents = d # ps\<rparr>"
      have sel: "select f (fst (rs sh)) = (Inr (decode_fcp c), ?in)"
        using select_child [of f "fst (rs sh)" c] plain found ok dir_name_plain [OF True]
          Cons.prems(4) by simp
      let ?sh2 = "?sh1\<lparr>rs := (?in, snd (rs sh) @ [Select f])\<rparr>"
      have walked: "recurse ?sh2 =
          Some (Inr (), ?sh2\<lparr>out_lines := out_lines ?sh2 @ L c,
                             rs := (fst (rs ?sh2), snd (rs ?sh2) @ E c)\<rparr>)"
        by (rule Cons.prems(2) [of c f]) (use f True in simp_all)
      let ?sh3 = "?sh2\<lparr>out_lines := out_lines ?sh2 @ L c,
                             rs := (fst (rs ?sh2), snd (rs ?sh2) @ E c)\<rparr>"
      have up: "select ''..'' ?in = (Inr (decode_fcp d), \<lparr>selected_file = d, parents = ps\<rparr>)"
        by (rule select_parent) (use d in simp_all)
      let ?sh4 = "?sh3\<lparr>rs := (\<lparr>selected_file = d, parents = ps\<rparr>,
                              snd (rs sh) @ [Select f] @ E c @ [Select ''..''])\<rparr>"
      have step: "walk_loop recurse (traced card_runtime) indent act
           (concat (map (child_names [''NAMES'', ''APPS'']) (c # cs))) sh =
         walk_loop recurse (traced card_runtime) indent act
           (concat (map (child_names [''NAMES'', ''APPS'']) cs)) ?sh4"
        using f True sel walked up rs1 by (simp add: Let_def)
      have "fst (rs ?sh4) = \<lparr>selected_file = d, parents = ps\<rparr>" by simp
      from IH [OF this] show ?thesis
        unfolding step using f True out1 Cons.prems(4) by (simp add: upd1)
    next
      case False
      have cur1: "fst (rs ?sh1) = \<lparr>selected_file = d, parents = ps\<rparr>"
        using rs1 Cons.prems(4) by simp
      have act1: "(case act of None \<Rightarrow> (Inr (), ?sh1) | Some a \<Rightarrow> a f ?sh1) =
          (Inr (), ?sh1\<lparr>out_lines := out_lines ?sh1 @ leaf_lines f c,
                     rs := (fst (rs ?sh1), snd (rs ?sh1) @ leaf_events f)\<rparr>)"
        by (rule Cons.prems(1) [of c f]) (use f False cur1 in simp_all)
      let ?sh2 = "?sh1\<lparr>out_lines := out_lines ?sh1 @ leaf_lines f c,
                     rs := (fst (rs ?sh1), snd (rs ?sh1) @ leaf_events f)\<rparr>"
      have step: "walk_loop recurse (traced card_runtime) indent act
           (concat (map (child_names [''NAMES'', ''APPS'']) (c # cs))) sh =
         walk_loop recurse (traced card_runtime) indent act
           (concat (map (child_names [''NAMES'', ''APPS'']) cs)) ?sh2"
        using f False act1 by (cases act) (simp_all add: Let_def)
      have "fst (rs ?sh2) = \<lparr>selected_file = d, parents = ps\<rparr>"
        using cur1 by simp
      from IH [OF this] show ?thesis
        unfolding step using f False out1 rs1 by (simp add: upd1)
    qed
  qed
qed


text \<open>
  The walk of the tree below the selected file \<open>n\<close>, for an action that does at every
  child that is not entered what \<open>leaf_events\<close> and \<open>leaf_lines\<close> say.
\<close>

lemma walk_tree:
  fixes act :: "(runtime_state \<times> event list) action option"
  assumes leaf: "\<And>d ps f c sh. leaf_ok d f c \<Longrightarrow>
        fst (rs sh) = \<lparr>selected_file = d, parents = ps\<rparr> \<Longrightarrow>
        (case act of None \<Rightarrow> (Inr (), sh) | Some a \<Rightarrow> a f sh) =
          (Inr (), sh\<lparr>out_lines := out_lines sh @ leaf_lines (d # ps) f c,
                     rs := (fst (rs sh), snd (rs sh) @ leaf_events f)\<rparr>)"
  shows "walkable leaf_ok n \<Longrightarrow> height n \<le> fuel \<Longrightarrow>
         fst (rs sh) = \<lparr>selected_file = n, parents = ps\<rparr> \<Longrightarrow>
         walk fuel (traced card_runtime) indent act sh =
           Some (Inr (),
             sh\<lparr>out_lines := out_lines sh @ walk_lines (pre_lines (act = None)) leaf_lines indent ps n,
                rs := (fst (rs sh), snd (rs sh) @ walk_events leaf_events n)\<rparr>)"
proof (induction n arbitrary: fuel indent sh ps)
  case (CardFile a cs)
  let ?d = "CardFile a cs"
  from CardFile.prems(2) obtain fuel' where fuel: "fuel = Suc fuel'"
    and below: "foldr (\<lambda>c m. max (height c) m) cs 0 \<le> fuel'"
    by (cases fuel) auto
  have names: "get_selectable_names [''NAMES'', ''APPS''] (fst (rs sh)) =
      concat (map (child_names [''NAMES'', ''APPS'']) cs)"
    using CardFile.prems(3) by (simp add: get_selectable_names_def)
  have loop: "walk_loop (walk fuel' (traced card_runtime) (Suc indent) act)
           (traced card_runtime) indent act
           (concat (map (child_names [''NAMES'', ''APPS'']) cs)) sh =
         Some (Inr (),
           sh\<lparr>out_lines := out_lines sh @
                 concat (map (\<lambda>c. concat (map
                   (\<lambda>f. pre_lines (act = None) indent f @
                      (if is_dir_name f
                       then walk_lines (pre_lines (act = None)) leaf_lines (Suc indent) (?d # ps) c
                       else leaf_lines (?d # ps) f c))
                   (child_names [''NAMES'', ''APPS''] c))) cs),
              rs := (fst (rs sh), snd (rs sh) @
                 concat (map (\<lambda>c. concat (map
                   (\<lambda>f. if is_dir_name f
                        then Select f # walk_events leaf_events c @ [Select ''..'']
                        else leaf_events f)
                   (child_names [''NAMES'', ''APPS''] c))) cs))\<rparr>)"
  proof (rule walk_loop_children [where d = ?d and ps = ps])
    fix f c and sh' :: "(runtime_state \<times> event list) cmd"
    assume c: "c \<in> set cs" and f: "f \<in> set (child_names [''NAMES'', ''APPS''] c)"
      and nd: "\<not> is_dir_name f"
      and cur: "fst (rs sh') = \<lparr>selected_file = ?d, parents = ps\<rparr>"
    from CardFile.prems(1) c f nd have "leaf_ok ?d f c" by auto
    from leaf [OF this cur]
    show "(case act of None \<Rightarrow> (Inr (), sh') | Some a \<Rightarrow> a f sh') =
          (Inr (), sh'\<lparr>out_lines := out_lines sh' @ leaf_lines (?d # ps) f c,
                     rs := (fst (rs sh'), snd (rs sh') @ leaf_events f)\<rparr>)" .
  next
    fix f c and sh' :: "(runtime_state \<times> event list) cmd"
    assume c: "c \<in> set cs" and f: "f \<in> set (child_names [''NAMES'', ''APPS''] c)"
      and dn: "is_dir_name f"
      and cur: "fst (rs sh') = \<lparr>selected_file = c, parents = ?d # ps\<rparr>"
    from CardFile.prems(1) c f dn have w: "walkable leaf_ok c" by auto
    from height_child [OF c] below have h: "height c \<le> fuel'" by simp
    from CardFile.IH [OF c w h cur]
    show "walk fuel' (traced card_runtime) (Suc indent) act sh' =
        Some (Inr (),
          sh'\<lparr>out_lines := out_lines sh' @
                 walk_lines (pre_lines (act = None)) leaf_lines (Suc indent) (?d # ps) c,
              rs := (fst (rs sh'), snd (rs sh') @ walk_events leaf_events c)\<rparr>)" .
  next
    fix f c
    assume c: "c \<in> set cs" and f: "f \<in> set (child_names [''NAMES'', ''APPS''] c)"
      and dn: "is_dir_name f"
    from CardFile.prems(1) c f dn have "CHR ''/'' \<notin> set f" "find_child f ?d = Some c"
      "walkable leaf_ok c" by auto
    moreover from \<open>walkable leaf_ok c\<close> have "select_sw (attr c) = None" by (cases c) simp
    ultimately show "CHR ''/'' \<notin> set f \<and> find_child f ?d = Some c \<and> select_sw (attr c) = None"
      by simp
  next
    from CardFile.prems(1) show "select_sw (attr ?d) = None" by simp
  next
    from CardFile.prems(3) show "fst (rs sh) = \<lparr>selected_file = ?d, parents = ps\<rparr>" .
  qed
  show ?case
    unfolding fuel by (simp add: names loop del: walk_loop.simps)
qed


text \<open>
  Claim C3. On a tree whose directories select, walk with no action, started with
  enough fuel at the selected file \<open>n\<close>, returns; it has written the names of the
  listing in depth-first pre-order, every name at the indentation of its depth and a
  directory name before the names below it; the selects it has made are, for every child
  with a directory name in listing order, the select of the child, the selects of the
  walk of the child, and the select of \<open>..\<close>; and the selected file is \<open>n\<close> again.
\<close>

theorem walk_is_depth_first:
  assumes "walkable (\<lambda>d f c. True) n" and "height n \<le> fuel"
    and "fst (rs sh) = \<lparr>selected_file = n, parents = ps\<rparr>"
  shows "walk fuel (traced card_runtime) indent None sh =
           Some (Inr (),
             sh\<lparr>out_lines := out_lines sh @
                   walk_lines (pre_lines True) (\<lambda>ds f c. []) indent ps n,
                rs := (fst (rs sh), snd (rs sh) @ walk_events (\<lambda>f. []) n)\<rparr>)"
proof -
  have leaf: "(case None of None \<Rightarrow> (Inr (), sh) | Some a \<Rightarrow> a f sh) =
      (Inr (), sh\<lparr>out_lines := out_lines sh @ [], rs := (fst (rs sh), snd (rs sh) @ [])\<rparr>)"
    for f :: string and sh :: "(runtime_state \<times> event list) cmd"
    by simp
  from walk_tree [where act = None and leaf_ok = "\<lambda>d f c. True"
      and leaf_lines = "\<lambda>ds f c. []" and leaf_events = "\<lambda>f. []", OF leaf assms, of indent]
  show ?thesis by simp
qed

theorem walk_is_depth_first_witness:
  "walkable (\<lambda>d f c. True) sim_card \<and> height sim_card \<le> 3 \<and>
   walk 3 (traced card_runtime) 0 None (traced_start sim_card) =
     Some (Inr (),
       (traced_start sim_card)
         \<lparr>out_lines := [''DF.TELECOM'', ''  EF.ADN'', ''DF.GSM'', ''  EF.IMSI'', ''EF.ICCID''],
          rs := (\<lparr>selected_file = sim_card, parents = []\<rparr>,
                 [Select ''DF.TELECOM'', Select ''..'', Select ''DF.GSM'', Select ''..''])\<rparr>)"
proof -
  have w: "walkable (\<lambda>d f c. True) sim_card" by code_simp
  have h: "height sim_card \<le> 3" by code_simp
  have c: "fst (rs (traced_start sim_card)) = \<lparr>selected_file = sim_card, parents = []\<rparr>"
    by (simp add: traced_start_def)
  have l: "out_lines (traced_start sim_card) @
      walk_lines (pre_lines True) (\<lambda>ds f c. []) 0 [] sim_card =
      [''DF.TELECOM'', ''  EF.ADN'', ''DF.GSM'', ''  EF.IMSI'', ''EF.ICCID'']"
    by code_simp
  have e: "snd (rs (traced_start sim_card)) @ walk_events (\<lambda>f. []) sim_card =
      [Select ''DF.TELECOM'', Select ''..'', Select ''DF.GSM'', Select ''..'']"
    by code_simp
  from walk_is_depth_first [OF w h c, of 0] w h show ?thesis
    unfolding l e c by simp
qed

lemma visits_are_not_dir_names:
  "Visit f \<in> set (walk_events (\<lambda>f. [Visit f]) n) \<Longrightarrow> \<not> is_dir_name f"
  by (induction n) (auto split: if_splits)

lemma selects_are_dir_names:
  "Select f \<in> set (walk_events (\<lambda>f. [Visit f]) n) \<Longrightarrow> is_dir_name f \<or> f = ''..''"
  by (induction n) (auto split: if_splits)

lemma listed_names_in_events:
  "f \<in> set (get_selectable_names [''NAMES'', ''APPS''] \<lparr>selected_file = n, parents = ps\<rparr>) \<Longrightarrow>
   (if is_dir_name f then Select f else Visit f) \<in> set (walk_events (\<lambda>f. [Visit f]) n)"
  by (cases n) (auto simp: get_selectable_names_def)

text \<open>
  Claim C8. On a tree whose directories select, the calls of walk with an action are:
  for every listed child whose name begins with \<open>DF\<close> or \<open>ADF\<close> the select of the
  child, the calls of the walk of the child and the select of \<open>..\<close>, and for every other
  listed child the action on its name. So the action is applied to no name that begins
  with \<open>DF\<close> or \<open>ADF\<close>, only such names are selected, and every listed name of the
  selected file is selected when it begins with \<open>DF\<close> or \<open>ADF\<close> and is given to the
  action otherwise. The type of the file plays no part.
\<close>

theorem walk_classifies_by_name:
  assumes "walkable (\<lambda>d f c. True) n" and "height n \<le> fuel"
    and "fst (rs sh) = \<lparr>selected_file = n, parents = ps\<rparr>"
  shows "walk fuel (traced card_runtime) indent (Some visit) sh =
           Some (Inr (),
             sh\<lparr>rs := (fst (rs sh), snd (rs sh) @ walk_events (\<lambda>f. [Visit f]) n)\<rparr>) \<and>
         (\<forall>f. Visit f \<in> set (walk_events (\<lambda>f. [Visit f]) n) \<longrightarrow> \<not> is_dir_name f) \<and>
         (\<forall>f. Select f \<in> set (walk_events (\<lambda>f. [Visit f]) n) \<longrightarrow>
              is_dir_name f \<or> f = ''..'') \<and>
         (\<forall>f\<in>set (rs_get_selectable_names (traced card_runtime) [''NAMES'', ''APPS''] (rs sh)).
              (if is_dir_name f then Select f else Visit f) \<in>
                set (walk_events (\<lambda>f. [Visit f]) n))"
proof -
  have "walk fuel (traced card_runtime) indent (Some visit) sh =
           Some (Inr (),
             sh\<lparr>out_lines := out_lines sh @ walk_lines (pre_lines False) (\<lambda>ds f c. []) indent ps n,
                rs := (fst (rs sh), snd (rs sh) @ walk_events (\<lambda>f. [Visit f]) n)\<rparr>)"
  proof -
    have leaf: "(case Some visit of None \<Rightarrow> (Inr (), sh) | Some a \<Rightarrow> a f sh) =
        (Inr (), sh\<lparr>out_lines := out_lines sh @ [],
                   rs := (fst (rs sh), snd (rs sh) @ [Visit f])\<rparr>)"
      for f :: string and sh :: "(runtime_state \<times> event list) cmd"
      by (simp add: visit_def)
    from walk_tree [where act = "Some visit" and leaf_ok = "\<lambda>d f c. True"
      and leaf_lines = "\<lambda>ds f c. []" and leaf_events = "\<lambda>f. [Visit f]",
      OF leaf assms, of indent]
    show ?thesis by simp
  qed
  moreover have "walk_lines (pre_lines False) (\<lambda>ds f c. []) indent ps n = []"
    by (induction n arbitrary: indent ps) (auto simp: pre_lines_def)
  ultimately show ?thesis
    using visits_are_not_dir_names selects_are_dir_names listed_names_in_events [of _ n ps] assms(3)
    by auto
qed

theorem walk_classifies_by_name_witness:
  "walkable (\<lambda>d f c. True) odd_card \<and> height odd_card \<le> 3 \<and>
   walk 3 (traced card_runtime) 0 (Some visit) (traced_start odd_card) =
     Some (Inr (),
       (traced_start odd_card)
         \<lparr>rs := (\<lparr>selected_file = odd_card, parents = []\<rparr>,
                 [Visit ''TELECOM'', Select ''DF.LOG'', Select ''..'', Visit ''EF.ICCID''])\<rparr>) \<and>
   \<not> is_dir_name ''TELECOM'' \<and> is_dir_name ''DF.LOG''"
proof -
  have w: "walkable (\<lambda>d f c. True) odd_card" by code_simp
  have h: "height odd_card \<le> 3" by code_simp
  have c: "fst (rs (traced_start odd_card)) = \<lparr>selected_file = odd_card, parents = []\<rparr>"
    by (simp add: traced_start_def)
  have e: "snd (rs (traced_start odd_card)) @ walk_events (\<lambda>f. [Visit f]) odd_card =
      [Visit ''TELECOM'', Select ''DF.LOG'', Select ''..'', Visit ''EF.ICCID'']"
    by code_simp
  have n: "\<not> is_dir_name ''TELECOM''" "is_dir_name ''DF.LOG''" by code_simp+
  from walk_classifies_by_name [OF w h c, of 0] w h n show ?thesis
    unfolding e c by simp
qed


section \<open>The export of a card tree\<close>

lemma select_lines_prompt:
  "prompt (foldl (\<lambda>s f. poutput (''select '' @ f) s) sh fs) = prompt sh"
  by (induction fs arbitrary: sh) simp_all

lemma select_lines_numeric_path:
  "numeric_path (foldl (\<lambda>s f. poutput (''select '' @ f) s) sh fs) = numeric_path sh"
  by (induction fs arbitrary: sh) simp_all

lemmas select_lines_frame [simp] =
  select_lines_prompt [unfolded append_Cons append_Nil]
  select_lines_numeric_path [unfolded append_Cons append_Nil]

lemma export_ok:
  assumes sel: "rs_select ops filename (rs sh) = (Inr fcp_dec, s)"
    and fd: "file_descriptor fcp_dec = Some fd" "fd_structure fd = Some struct"
    and pl: "rs_fully_qualified_path ops True s = path_list" "path_list \<noteq> []"
    and plf: "rs_fully_qualified_path ops False s = path_list_fid" "path_list_fid \<noteq> []"
    and bin: "struct = ''transparent'' \<Longrightarrow> rs_read_binary ops s = Inr (blob, bsw)"
    and recs: "struct = ''cyclic'' \<or> struct = ''linear_fixed'' \<Longrightarrow>
           fd_num_of_rec fd = Some n \<and>
           (\<forall>r\<in>{1..n}. rs_read_record ops r s = Inr (data r, sw r))"
    and up: "rs_select ops ''..'' s = (Inr fcp_up, s')"
  shows "export ops filename sh =
           (Inr (),
            sh\<lparr>out_lines := out_lines sh @
              [''# directory:'' @ join ''/'' (rs_fully_qualified_path ops True (rs sh)) @ '' ('' @
                 join ''/'' (rs_fully_qualified_path ops False (rs sh)) @ '')'',
               ''# file:'' @ last path_list @ '' ('' @ last path_list_fid @ '')'',
               ''# structure: '' @ struct] @
              map (\<lambda>f. ''select '' @ f) path_list @
              (if struct = ''transparent'' then [''update_binary '' @ blob]
               else if struct = ''cyclic'' \<or> struct = ''linear_fixed''
                 then map (\<lambda>r. ''update_record '' @ str_int r @ '' '' @ data r) [1..n]
               else []) @
              [''#''],
              rs := s'\<rparr>)"
proof -
  let ?sh4 = "foldl (\<lambda>s f. poutput (''select '' @ f) s)
      (poutput (''# structure: '' @ struct)
        (poutput (''# file:'' @ last path_list @ '' ('' @ last path_list_fid @ '')'')
          ((poutput (''# directory:'' @
              join ''/'' (rs_fully_qualified_path ops True (rs sh)) @ '' ('' @
              join ''/'' (rs_fully_qualified_path ops False (rs sh)) @ '')'') sh)\<lparr>rs := s\<rparr>)))
      path_list"
  have rs4: "rs ?sh4 = s" by simp
  have reads: "export_reads ops fd struct ?sh4 =
           (Inr (), ?sh4\<lparr>out_lines := out_lines ?sh4 @
              (if struct = ''transparent'' then [''update_binary '' @ blob]
               else if struct = ''cyclic'' \<or> struct = ''linear_fixed''
                 then map (\<lambda>r. ''update_record '' @ str_int r @ '' '' @ data r) [1..n]
               else [])\<rparr>)"
    by (rule export_reads_ok) (use bin recs rs4 in auto)
  show ?thesis
    unfolding export_def export_try_def Let_def
    using sel fd pl plf up
    by (simp add: reads [unfolded append_Cons append_Nil])
qed

lemma structure_tag_simps [simp]:
  "structure_tag s = ''transparent'' \<longleftrightarrow> s = Transparent"
  "structure_tag s = ''linear_fixed'' \<longleftrightarrow> s = LinearFixed"
  "structure_tag s = ''cyclic'' \<longleftrightarrow> s = Cyclic"
  by (cases s; simp)+

text \<open>The export of a file that selects and reads, on the card.\<close>

lemma export_card_file:
  assumes ok: "exportable d f c"
    and cur: "fst (rs sh) = \<lparr>selected_file = d, parents = ps\<rparr>"
  shows "export (traced card_runtime) f sh =
           (Inr (),
            sh\<lparr>out_lines := out_lines sh @ export_script (d # ps) c,
               rs := (fst (rs sh), snd (rs sh) @ [Select f, Select ''..''])\<rparr>)"
proof -
  from ok obtain st where st: "ef_structure (attr c) = Some st"
    by (auto simp: exportable_def)
  let ?in = "\<lparr>selected_file = c, parents = d # ps\<rparr>"
  let ?s = "(?in, snd (rs sh) @ [Select f])"
  let ?fd = "\<lparr>fd_structure = Some (structure_tag st),
       fd_num_of_rec = (if st = LinearFixed \<or> st = Cyclic
                        then Some (int (length (body (attr c)))) else None)\<rparr>"
  have sel0: "select f (fst (rs sh)) = (Inr (decode_fcp c), ?in)"
    using select_child [of f "fst (rs sh)" c] ok cur by (simp add: exportable_def plain_name_def)
  have sel: "rs_select (traced card_runtime) f (rs sh) = (Inr (decode_fcp c), ?s)"
    using sel0 by simp
  have fd: "file_descriptor (decode_fcp c) = Some ?fd" "fd_structure ?fd = Some (structure_tag st)"
    using st by (simp_all add: decode_fcp_def)
  have pl: "rs_fully_qualified_path (traced card_runtime) True ?s =
      map (label True) (rev (d # ps) @ [c])" "map (label True) (rev (d # ps) @ [c]) \<noteq> []"
    by (simp_all add: fully_qualified_path_def)
  have plf: "rs_fully_qualified_path (traced card_runtime) False ?s =
      map (label False) (rev (d # ps) @ [c])" "map (label False) (rev (d # ps) @ [c]) \<noteq> []"
    by (simp_all add: fully_qualified_path_def)
  have bin: "structure_tag st = ''transparent'' \<Longrightarrow>
      rs_read_binary (traced card_runtime) ?s = Inr (concat (body (attr c)), ''9000'')"
    using ok st by (simp add: read_binary_def exportable_def)
  have recs: "structure_tag st = ''cyclic'' \<or> structure_tag st = ''linear_fixed'' \<Longrightarrow>
       fd_num_of_rec ?fd = Some (int (length (body (attr c)))) \<and>
       (\<forall>r\<in>{1..int (length (body (attr c)))}.
           rs_read_record (traced card_runtime) r ?s = Inr (body (attr c) ! nat (r - 1), ''9000''))"
    using ok st by (auto simp: read_record_def exportable_def)
  have up0: "select ''..'' ?in = (Inr (decode_fcp d), \<lparr>selected_file = d, parents = ps\<rparr>)"
    by (rule select_parent) (use ok in \<open>simp_all add: exportable_def\<close>)
  have up: "rs_select (traced card_runtime) ''..'' ?s =
      (Inr (decode_fcp d), (\<lparr>selected_file = d, parents = ps\<rparr>, snd (rs sh) @ [Select f, Select ''..'']))"
    using up0 by simp
  have dirs: "rs_fully_qualified_path (traced card_runtime) b (rs sh) = map (label b) (rev (d # ps))"
    for b using cur by (simp add: fully_qualified_path_def)
  have script: "[''# directory:'' @ join ''/'' (map (label True) (rev (d # ps))) @ '' ('' @
                 join ''/'' (map (label False) (rev (d # ps))) @ '')'',
               ''# file:'' @ last (map (label True) (rev (d # ps) @ [c])) @ '' ('' @
                 last (map (label False) (rev (d # ps) @ [c])) @ '')'',
               ''# structure: '' @ structure_tag st] @
              map (\<lambda>f. ''select '' @ f) (map (label True) (rev (d # ps) @ [c])) @
              (if structure_tag st = ''transparent'' then [''update_binary '' @ concat (body (attr c))]
               else if structure_tag st = ''cyclic'' \<or> structure_tag st = ''linear_fixed''
                 then map (\<lambda>r. ''update_record '' @ str_int r @ '' '' @ body (attr c) ! nat (r - 1))
                        [1..int (length (body (attr c)))]
               else []) @
              [''#''] = export_script (d # ps) c"
    using st by (cases st) (simp_all add: export_script_def)
  from export_ok [OF sel fd pl plf bin recs up] show ?thesis
    unfolding dirs script using cur by simp
qed

text \<open>
  Claim C6, as amended. Without a filename, and with the empty string as the filename,
  the export command is the walk with export as its action; with any other filename it
  is the export of that file and no walk. On a card tree whose directories select and
  whose other listed files select and read, the walk with export returns with enough
  fuel, and has written, for every listed file that is not a directory name, in
  depth-first order, the script of that file; the selected file is the same again.
\<close>

theorem do_export_walks_or_exports_one:
  "(filename = None \<or> filename = Some [] \<longrightarrow>
      do_export fuel ops filename sh = walk fuel ops 0 (Some (export ops)) sh) \<and>
   (fn \<noteq> [] \<longrightarrow> do_export fuel ops (Some fn) sh = Some (export ops fn sh)) \<and>
   (walkable exportable n \<and> height n \<le> fuel \<and>
    fst (rs tsh) = \<lparr>selected_file = n, parents = ps\<rparr> \<longrightarrow>
      do_export fuel (traced card_runtime) None tsh =
        Some (Inr (),
          tsh\<lparr>out_lines := out_lines tsh @
                 walk_lines (pre_lines False) (\<lambda>ds f c. export_script ds c) 0 ps n,
              rs := (fst (rs tsh),
                     snd (rs tsh) @ walk_events (\<lambda>f. [Select f, Select ''..'']) n)\<rparr>))"
proof (intro conjI impI)
  assume "filename = None \<or> filename = Some []"
  then show "do_export fuel ops filename sh = walk fuel ops 0 (Some (export ops)) sh"
    by (auto simp: do_export_def)
next
  assume "fn \<noteq> []"
  then show "do_export fuel ops (Some fn) sh = Some (export ops fn sh)"
    by (simp add: do_export_def)
next
  assume a: "walkable exportable n \<and> height n \<le> fuel \<and>
    fst (rs tsh) = \<lparr>selected_file = n, parents = ps\<rparr>"
  have leaf: "exportable d f c \<Longrightarrow> fst (rs sh) = \<lparr>selected_file = d, parents = ps\<rparr> \<Longrightarrow>
      (case Some (export (traced card_runtime)) of None \<Rightarrow> (Inr (), sh) | Some a \<Rightarrow> a f sh) =
      (Inr (), sh\<lparr>out_lines := out_lines sh @ export_script (d # ps) c,
                 rs := (fst (rs sh), snd (rs sh) @ [Select f, Select ''..''])\<rparr>)"
    for d ps f c and sh :: "(runtime_state \<times> event list) cmd"
    by (simp add: export_card_file)
  from a walk_tree [where act = "Some (export (traced card_runtime))" and leaf_ok = exportable
      and leaf_lines = "\<lambda>ds f c. export_script ds c"
      and leaf_events = "\<lambda>f. [Select f, Select ''..'']", OF leaf, of n fuel tsh ps 0]
  show "do_export fuel (traced card_runtime) None tsh =
        Some (Inr (),
          tsh\<lparr>out_lines := out_lines tsh @
                 walk_lines (pre_lines False) (\<lambda>ds f c. export_script ds c) 0 ps n,
              rs := (fst (rs tsh),
                     snd (rs tsh) @ walk_events (\<lambda>f. [Select f, Select ''..'']) n)\<rparr>)"
    by (simp add: do_export_def)
qed

theorem do_export_walks_or_exports_one_witness:
  "do_export 3 card_runtime None (start sim_card) =
     walk 3 card_runtime 0 (Some (export card_runtime)) (start sim_card) \<and>
   do_export 3 card_runtime (Some ''EF.ICCID'') (start sim_card) =
     Some (export card_runtime ''EF.ICCID'' (start sim_card)) \<and>
   walkable exportable sim_card \<and> height sim_card \<le> 3 \<and>
   do_export 3 (traced card_runtime) None (traced_start sim_card) =
     Some (Inr (),
       (traced_start sim_card)
         \<lparr>out_lines :=
            [''# directory:MF/DF.TELECOM (3f00/7f10)'', ''# file:EF.ADN (6f3a)'',
             ''# structure: linear_fixed'', ''select MF'', ''select DF.TELECOM'',
             ''select EF.ADN'', ''update_record 1 aa'', ''update_record 2 bb'', ''#'',
             ''# directory:MF/DF.GSM (3f00/7f20)'', ''# file:EF.IMSI (6f07)'',
             ''# structure: transparent'', ''select MF'', ''select DF.GSM'', ''select EF.IMSI'',
             ''update_binary 0849'', ''#'',
             ''# directory:MF (3f00)'', ''# file:EF.ICCID (2fe2)'', ''# structure: transparent'',
             ''select MF'', ''select EF.ICCID'', ''update_binary 9888'', ''#''],
          rs := (\<lparr>selected_file = sim_card, parents = []\<rparr>,
                 [Select ''DF.TELECOM'', Select ''EF.ADN'', Select ''..'', Select ''..'',
                  Select ''DF.GSM'', Select ''EF.IMSI'', Select ''..'', Select ''..'',
                  Select ''EF.ICCID'', Select ''..''])\<rparr>)"
proof -
  have w: "walkable exportable sim_card" by code_simp
  have h: "height sim_card \<le> 3" by code_simp
  have c: "fst (rs (traced_start sim_card)) = \<lparr>selected_file = sim_card, parents = []\<rparr>"
    by (simp add: traced_start_def)
  have l: "out_lines (traced_start sim_card) @
      walk_lines (pre_lines False) (\<lambda>ds f c. export_script ds c) 0 [] sim_card =
            [''# directory:MF/DF.TELECOM (3f00/7f10)'', ''# file:EF.ADN (6f3a)'',
             ''# structure: linear_fixed'', ''select MF'', ''select DF.TELECOM'',
             ''select EF.ADN'', ''update_record 1 aa'', ''update_record 2 bb'', ''#'',
             ''# directory:MF/DF.GSM (3f00/7f20)'', ''# file:EF.IMSI (6f07)'',
             ''# structure: transparent'', ''select MF'', ''select DF.GSM'', ''select EF.IMSI'',
             ''update_binary 0849'', ''#'',
             ''# directory:MF (3f00)'', ''# file:EF.ICCID (2fe2)'', ''# structure: transparent'',
             ''select MF'', ''select EF.ICCID'', ''update_binary 9888'', ''#'']"
    by code_simp
  have e: "snd (rs (traced_start sim_card)) @
      walk_events (\<lambda>f. [Select f, Select ''..'']) sim_card =
                 [Select ''DF.TELECOM'', Select ''EF.ADN'', Select ''..'', Select ''..'',
                  Select ''DF.GSM'', Select ''EF.IMSI'', Select ''..'', Select ''..'',
                  Select ''EF.ICCID'', Select ''..'']"
    by code_simp
  have ne: "''EF.ICCID'' \<noteq> []" by simp
  note t = do_export_walks_or_exports_one [where fn = "''EF.ICCID''" and n = sim_card
      and fuel = 3 and tsh = "traced_start sim_card" and ps = "[]" and ops = card_runtime
      and sh = "start sim_card" and filename = None]
  from t ne have one: "do_export 3 card_runtime (Some ''EF.ICCID'') (start sim_card) =
     Some (export card_runtime ''EF.ICCID'' (start sim_card))" by blast
  from t w h c have all: "do_export 3 (traced card_runtime) None (traced_start sim_card) =
        Some (Inr (),
          (traced_start sim_card)\<lparr>out_lines := out_lines (traced_start sim_card) @
                 walk_lines (pre_lines False) (\<lambda>ds f c. export_script ds c) 0 [] sim_card,
              rs := (fst (rs (traced_start sim_card)),
                     snd (rs (traced_start sim_card)) @
                       walk_events (\<lambda>f. [Select f, Select ''..'']) sim_card)\<rparr>)" by blast
  from t have none: "do_export 3 card_runtime None (start sim_card) =
     walk 3 card_runtime 0 (Some (export card_runtime)) (start sim_card)" by blast
  from none one all w h show ?thesis unfolding l e c by simp
qed

text \<open>
  The export command with the empty string as its \<^verbatim>\<open>--filename\<close>: the walk of the
  tree runs and exports the three files of the card, which is not the export of one
  file of that name.
\<close>

theorem do_export_empty_filename_walks:
  "map_option (\<lambda>p. out_lines (snd p)) (do_export 3 card_runtime (Some []) (start sim_card)) =
     Some
      [''# directory:MF/DF.TELECOM (3f00/7f10)'', ''# file:EF.ADN (6f3a)'',
       ''# structure: linear_fixed'', ''select MF'', ''select DF.TELECOM'', ''select EF.ADN'',
       ''update_record 1 aa'', ''update_record 2 bb'', ''#'',
       ''# directory:MF/DF.GSM (3f00/7f20)'', ''# file:EF.IMSI (6f07)'',
       ''# structure: transparent'', ''select MF'', ''select DF.GSM'', ''select EF.IMSI'',
       ''update_binary 0849'', ''#'',
       ''# directory:MF (3f00)'', ''# file:EF.ICCID (2fe2)'', ''# structure: transparent'',
       ''select MF'', ''select EF.ICCID'', ''update_binary 9888'', ''#''] \<and>
   do_export 3 card_runtime (Some []) (start sim_card) \<noteq>
     Some (export card_runtime [] (start sim_card))"
  by code_simp


section \<open>Select and the current path\<close>

lemma split_path_element:
  "CHR ''/'' \<notin> set e \<Longrightarrow>
   split_path acc (e @ CHR ''/'' # rest) =
     (if acc @ e = [] then [] else [acc @ e]) @ split_path [] rest"
  by (induction e arbitrary: acc) auto

lemma path_elements_absolute:
  assumes "\<forall>e\<in>set elems. e \<noteq> [] \<and> CHR ''/'' \<notin> set e"
  shows "path_elements (absolute_path elems) = elems"
proof -
  have "split_path [] (concat (map (\<lambda>e. ''/'' @ e) es)) = es"
    if "\<forall>e\<in>set es. e \<noteq> [] \<and> CHR ''/'' \<notin> set e" for es
    using that
  proof (induction es)
    case Nil
    then show ?case by simp
  next
    case (Cons e es)
    then have e: "e \<noteq> []" "CHR ''/'' \<notin> set e"
      and IH: "split_path [] (concat (map (\<lambda>e. ''/'' @ e) es)) = es" by auto
    have "split_path [] (e @ concat (map (\<lambda>e. ''/'' @ e) es)) = e # es"
    proof (cases es)
      case Nil
      with e show ?thesis by (simp add: split_path_plain)
    next
      case (Cons e' es')
      then obtain rest where rest: "concat (map (\<lambda>e. ''/'' @ e) es) = CHR ''/'' # rest"
        by simp
      with IH have "split_path [] rest = es" by simp
      with e rest show ?thesis by (simp add: split_path_element)
    qed
    then show ?case by simp
  qed
  from this [OF assms] show ?thesis
    by (simp add: path_elements_def absolute_path_def)
qed

lemma select_elements_by_name:
  "named_path d es \<Longrightarrow>
   \<exists>st'. select_elements es \<lparr>selected_file = d, parents = ps\<rparr> = Inr st' \<and>
         fully_qualified_path True st' = map (label True) (rev ps @ [d]) @ es"
proof (induction es arbitrary: d ps)
  case Nil
  then show ?case by (simp add: fully_qualified_path_def)
next
  case (Cons e es)
  then obtain c where c: "find_child e d = Some c" "name (attr c) = Some e"
      "select_sw (attr c) = None" "named_path c es" and e: "e \<noteq> ''.''" "e \<noteq> ''..''"
    by (auto split: option.splits)
  from Cons.IH [OF c(4), of "d # ps"] obtain st' where
    "select_elements es \<lparr>selected_file = c, parents = d # ps\<rparr> = Inr st'"
    "fully_qualified_path True st' = map (label True) (rev (d # ps) @ [c]) @ es"
    by blast
  with c e show ?case by (simp add: select_element_def label_def)
qed

text \<open>
  Claim C7, as amended. For an absolute path whose elements are a path by name below
  the MF, select succeeds, and the fully qualified path by names of the selected file is
  then the label of the MF followed by the elements of the path.
\<close>

theorem select_then_current_path:
  assumes "elems \<noteq> []" and "\<forall>e\<in>set elems. e \<noteq> [] \<and> CHR ''/'' \<notin> set e"
    and "named_path (last (selected_file st # parents st)) elems"
  shows "(\<exists>fcp_dec. fst (select (absolute_path elems) st) = Inr fcp_dec) \<and>
         path_elements (absolute_path elems) = elems \<and>
         fully_qualified_path True (snd (select (absolute_path elems) st)) =
           label True (last (selected_file st # parents st)) # elems"
proof -
  have abs: "is_absolute (absolute_path elems)"
    using assms(1) by (cases elems) (simp_all add: is_absolute_def absolute_path_def)
  from select_elements_by_name [OF assms(3), of "[]"] obtain st' where
    st': "select_elements elems (mf_state st) = Inr st'"
    "fully_qualified_path True st' = label True (last (selected_file st # parents st)) # elems"
    by (auto simp: mf_state_def)
  then show ?thesis
    using abs path_elements_absolute [OF assms(2)] by (simp add: select_def)
qed

theorem select_then_current_path_witness:
  "absolute_path [''DF.TELECOM'', ''EF.ADN''] = ''/DF.TELECOM/EF.ADN'' \<and>
   named_path sim_card [''DF.TELECOM'', ''EF.ADN''] \<and>
   path_elements ''/DF.TELECOM/EF.ADN'' = [''DF.TELECOM'', ''EF.ADN''] \<and>
   fully_qualified_path True (snd (select ''/DF.TELECOM/EF.ADN'' (rs (in_telecom sim_card)))) =
     [''MF'', ''DF.TELECOM'', ''EF.ADN'']"
proof -
  have p: "absolute_path [''DF.TELECOM'', ''EF.ADN''] = ''/DF.TELECOM/EF.ADN''"
    by code_simp
  have ne: "[''DF.TELECOM'', ''EF.ADN''] \<noteq> []" by simp
  have pl: "\<forall>e\<in>set [''DF.TELECOM'', ''EF.ADN'']. e \<noteq> [] \<and> CHR ''/'' \<notin> set e"
    by simp
  have mf: "last (selected_file (rs (in_telecom sim_card)) # parents (rs (in_telecom sim_card))) =
      sim_card"
    by code_simp
  have np: "named_path sim_card [''DF.TELECOM'', ''EF.ADN'']"
    by code_simp
  have l: "label True sim_card = ''MF''" by code_simp
  from select_then_current_path [OF ne pl, of "rs (in_telecom sim_card)"] np p mf l
  show ?thesis by simp
qed

text \<open>
  A valid absolute path by file id: the select succeeds, and the current path by names
  is not the sequence of its elements.
\<close>

theorem select_by_fid_shows_names:
  "fst (select ''/7f10/6f3a'' (rs (start sim_card))) =
     Inr \<lparr>file_descriptor = Some \<lparr>fd_structure = Some ''linear_fixed'', fd_num_of_rec = Some 2\<rparr>\<rparr> \<and>
   path_elements ''/7f10/6f3a'' = [''7f10'', ''6f3a''] \<and>
   fully_qualified_path True (snd (select ''/7f10/6f3a'' (rs (start sim_card)))) =
     [''MF'', ''DF.TELECOM'', ''EF.ADN'']"
  by code_simp


end
